theory Spec2Isabelle
  imports Complex_Main
begin

section \<open>Data model of \<open>src/App.tsx\<close>\<close>

text \<open>
  The simulation core of \<open>App.tsx\<close>: the classes \<open>Entity\<close>, \<open>Ghost\<close> and
  \<open>UltimateGhost\<close>, and the closures \<open>initGame\<close>, \<open>handleKeyDown\<close>, \<open>draw\<close> and the
  respawn interval of the component \<open>App\<close>.

  Modelling decisions:
  \<^item> A JavaScript \<open>number\<close> that holds a coordinate, a speed or a distance is a \<open>real\<close>;
    grid indices, the score and the pellet count are \<open>int\<close>. The grid-stepped motion
    works on cell centres and steps of 2 or 3 units; for a tile size that is a whole number
    double arithmetic is exact on these, and it is modelled with exact arithmetic.
    \<open>Math.hypot\<close> in the collision tests and in the sort of \<open>updateChasingAI\<close> is the
    real function on such operands. The merging branch of \<open>Ghost.updateAI\<close> leaves these
    values: there \<open>Math.atan2\<close>, \<open>Math.cos\<close>, \<open>Math.sin\<close>, \<open>Math.hypot\<close> and the
    rounding of every sum, difference and product are parameters (\<open>MathOps\<close>), since
    their results in double precision are not fixed by the source. The centre of cell
    (9, 9) and the division by the tile size stay exact there too.
  \<^item> \<open>null\<close> (and \<open>undefined\<close>, which the code tests the same way) is \<open>None\<close>.
  \<^item> The module \<open>./constants\<close> is not part of the sources: \<open>TILE_SIZE\<close> is the parameter
    \<open>T\<close>, the layout \<open>MAP\<close> and the list \<open>COLORS.GHOSTS\<close> are parameters as well, and
    \<open>TileType\<close> is a datatype with the five members the code and the legend name.
  \<^item> \<open>Math.random()\<close> is an input: every call site reads one given number.
  \<^item> React state (\<open>score\<close>, \<open>gameState\<close>, \<open>pelletsLeft\<close>) is part of the state record. A
    setter called with a value is an assignment at the place of the call. A setter called
    with a function queues that function: React runs it when it renders next, after the
    running callback has returned.
  \<^item> Canvas drawing, image loading and the mouth animation do not influence the
    simulation and are left out; \<open>draw\<close> is modelled for a canvas that exists.
  \<^item> The fields \<open>x\<close>, \<open>y\<close> of \<open>Entity\<close> are \<open>xpos\<close>, \<open>ypos\<close>, and the field \<open>map\<close>
    of the game data is \<open>maze\<close>.
\<close>

datatype Direction = UP | DOWN | LEFT | RIGHT

datatype TileType = WALL | EMPTY | PELLET | PACMAN_START | GHOST_START

datatype Phase = START | PLAYING | WON | LOST

datatype error = TypeError

record Entity =
  xpos :: real
  ypos :: real
  gridX :: int
  gridY :: int
  direction :: "Direction option"
  nextDirection :: "Direction option"
  speed :: real

record Ghost = Entity +
  color :: "string option"
  isMerging :: bool
  merged :: bool

record GameData =
  pacman :: "Entity option"
  ghosts :: "Ghost list"
  ultimateGhost :: "Ghost option"
  maze :: "TileType list list"
  score :: int
  scoreState :: int
  gameState :: Phase
  pelletsLeft :: int

section \<open>Helpers for JavaScript semantics\<close>

text \<open>\<open>row[i]\<close> for an array and an integer index: \<open>undefined\<close> out of range.\<close>

definition cellAt :: "'a list \<Rightarrow> int \<Rightarrow> 'a option" where
  "cellAt row i = (if 0 \<le> i \<and> i < int (length row) then Some (row ! nat i) else None)"

text \<open>\<open>Math.hypot(a, b)\<close>.\<close>

definition hypot :: "real \<Rightarrow> real \<Rightarrow> real" where
  "hypot a b = sqrt (a\<^sup>2 + b\<^sup>2)"

text \<open>\<open>Math.atan2(b, a)\<close>: the angle of the point \<open>(a, b)\<close> in \<open>(-\<pi>, \<pi>]\<close>, and 0 at the origin.\<close>

definition atan2 :: "real \<Rightarrow> real \<Rightarrow> real" where
  "atan2 b a =
     (if 0 < a then arctan (b / a)
      else if a < 0 \<and> 0 \<le> b then arctan (b / a) + pi
      else if a < 0 \<and> b < 0 then arctan (b / a) - pi
      else if 0 < b then pi / 2
      else if b < 0 then - (pi / 2)
      else 0)"

text \<open>
  The arithmetic of the merging branch: the four functions of \<open>Math\<close> it calls, and the
  rounding to a double that follows each of its sums, differences and products.
\<close>

record MathOps =
  mathAtan2 :: "real \<Rightarrow> real \<Rightarrow> real"
  mathCos :: "real \<Rightarrow> real"
  mathSin :: "real \<Rightarrow> real"
  mathHypot :: "real \<Rightarrow> real \<Rightarrow> real"
  roundDouble :: "real \<Rightarrow> real"

text \<open>Arithmetic without rounding.\<close>

definition exactMath :: MathOps where
  "exactMath =
     \<lparr>mathAtan2 = atan2, mathCos = cos, mathSin = sin, mathHypot = hypot,
      roundDouble = (\<lambda>v. v)\<rparr>"

text \<open>\<open>xs[Math.floor(r * xs.length)]\<close> where \<open>r\<close> is the value of \<open>Math.random()\<close>.\<close>

definition pick :: "'a list \<Rightarrow> real \<Rightarrow> 'a option" where
  "pick xs r = cellAt xs \<lfloor>r * real (length xs)\<rfloor>"

section \<open>Class \<open>Entity\<close>\<close>

definition newEntity :: "real \<Rightarrow> int \<Rightarrow> int \<Rightarrow> Entity" where
  "newEntity T gx gy =
     \<lparr>xpos = of_int gx * T + T / 2, ypos = of_int gy * T + T / 2,
      gridX = gx, gridY = gy, direction = None, nextDirection = None, speed = 2\<rparr>"

definition nextCell :: "Direction \<Rightarrow> int \<times> int \<Rightarrow> int \<times> int" where
  "nextCell d c =
     (case c of (cx, cy) \<Rightarrow>
        (case d of UP \<Rightarrow> (cx, cy - 1) | DOWN \<Rightarrow> (cx, cy + 1)
                 | LEFT \<Rightarrow> (cx - 1, cy) | RIGHT \<Rightarrow> (cx + 1, cy)))"

definition canMove :: "'a Entity_scheme \<Rightarrow> Direction option \<Rightarrow> TileType list list \<Rightarrow> bool" where
  "canMove e dir mz =
     (case dir of
        None \<Rightarrow> False
      | Some d \<Rightarrow>
          (case nextCell d (gridX e, gridY e) of (nextGridX, nextGridY) \<Rightarrow>
             if nextGridY < 0 \<or> int (length mz) \<le> nextGridY then False
             else if nextGridX < 0 \<or> int (length (mz ! 0)) \<le> nextGridX then False
             else cellAt (mz ! nat nextGridY) nextGridX \<noteq> Some WALL))"

text \<open>
  The block \<open>if (this.direction) { ... }\<close> that ends \<open>updatePosition\<close>, \<open>updateAI\<close> and
  \<open>updateChasingAI\<close>: one step of \<open>speed\<close> along the direction, then the grid cell anew.
\<close>

definition moveStep :: "real \<Rightarrow> 'a Entity_scheme \<Rightarrow> 'a Entity_scheme" where
  "moveStep T e =
     (case direction e of
        None \<Rightarrow> e
      | Some d \<Rightarrow>
          (let nx = (if d = LEFT then xpos e - speed e
                     else if d = RIGHT then xpos e + speed e else xpos e);
               ny = (if d = UP then ypos e - speed e
                     else if d = DOWN then ypos e + speed e else ypos e)
           in e\<lparr>xpos := nx, ypos := ny, gridX := \<lfloor>nx / T\<rfloor>, gridY := \<lfloor>ny / T\<rfloor>\<rparr>))"

definition atCenter :: "real \<Rightarrow> real \<Rightarrow> 'a Entity_scheme \<Rightarrow> bool" where
  "atCenter T sp e =
     (\<bar>xpos e - (of_int (gridX e) * T + T / 2)\<bar> < sp \<and>
      \<bar>ypos e - (of_int (gridY e) * T + T / 2)\<bar> < sp)"

definition snapToCenter :: "real \<Rightarrow> 'a Entity_scheme \<Rightarrow> 'a Entity_scheme" where
  "snapToCenter T e =
     e\<lparr>xpos := of_int (gridX e) * T + T / 2, ypos := of_int (gridY e) * T + T / 2\<rparr>"

definition updatePosition :: "real \<Rightarrow> TileType list list \<Rightarrow> 'a Entity_scheme \<Rightarrow> 'a Entity_scheme" where
  "updatePosition T mz e =
     (let e1 =
        (if atCenter T (speed e) e then
           (let e0 = snapToCenter T e in
            if nextDirection e0 \<noteq> None \<and> canMove e0 (nextDirection e0) mz
            then e0\<lparr>direction := nextDirection e0, nextDirection := None\<rparr>
            else if direction e0 \<noteq> None \<and> \<not> canMove e0 (direction e0) mz
            then e0\<lparr>direction := None\<rparr>
            else e0)
         else e)
      in moveStep T e1)"

section \<open>Class \<open>Ghost\<close>\<close>

definition newGhost :: "real \<Rightarrow> int \<Rightarrow> int \<Rightarrow> string option \<Rightarrow> Ghost" where
  "newGhost T gx gy c =
     \<lparr>xpos = of_int gx * T + T / 2, ypos = of_int gy * T + T / 2,
      gridX = gx, gridY = gy, direction = None, nextDirection = None, speed = 2,
      color = c, isMerging = False, merged = False\<rparr>"

definition directions :: "Direction list" where
  "directions = [UP, DOWN, LEFT, RIGHT]"

definition isReverse :: "Direction option \<Rightarrow> Direction \<Rightarrow> bool" where
  "isReverse cur d =
     ((cur = Some UP \<and> d = DOWN) \<or> (cur = Some DOWN \<and> d = UP) \<or>
      (cur = Some LEFT \<and> d = RIGHT) \<or> (cur = Some RIGHT \<and> d = LEFT))"

text \<open>The array \<open>available\<close> of \<open>Ghost.updateAI\<close>.\<close>

definition available :: "'a Entity_scheme \<Rightarrow> TileType list list \<Rightarrow> Direction list" where
  "available g mz =
     filter (\<lambda>d. canMove g (Some d) mz \<and>
                 (\<not> isReverse (direction g) d \<or>
                  length (filter (\<lambda>dir. canMove g (Some dir) mz) directions) = 1))
            directions"

text \<open>
  The branch \<open>if (this.isMerging) { ... return; }\<close>: the straight move to the centre of
  cell (9, 9), with \<open>this.speed\<close> already set to 3. The centre is a tile-derived value and
  exact; everything computed from the ghost's position goes through \<open>M\<close>.
\<close>

definition mergeMove :: "MathOps \<Rightarrow> real \<Rightarrow> Ghost \<Rightarrow> Ghost" where
  "mergeMove M T g =
     (let targetX = 9 * T + T / 2;
          targetY = 9 * T + T / 2;
          angle = mathAtan2 M (roundDouble M (targetY - ypos g)) (roundDouble M (targetX - xpos g));
          nx = roundDouble M (xpos g + roundDouble M (mathCos M angle * speed g));
          ny = roundDouble M (ypos g + roundDouble M (mathSin M angle * speed g));
          g1 = g\<lparr>xpos := nx, ypos := ny, gridX := \<lfloor>nx / T\<rfloor>, gridY := \<lfloor>ny / T\<rfloor>\<rparr>;
          distToTarget = mathHypot M (roundDouble M (nx - targetX)) (roundDouble M (ny - targetY))
      in if distToTarget < 5
         then g1\<lparr>merged := True, xpos := targetX, ypos := targetY, direction := None\<rparr>
         else g1)"

text \<open>
  \<open>updateAI\<close>; \<open>r1\<close> is read by \<open>Math.random() < 0.7\<close> and \<open>r2\<close> by the random index.
\<close>

definition updateAI ::
    "MathOps \<Rightarrow> real \<Rightarrow> TileType list list \<Rightarrow> real \<times> real \<Rightarrow> Ghost \<Rightarrow> Ghost" where
  "updateAI M T mz r g =
     (if merged g then g
      else
        (let currentSpeed = (if isMerging g then 3 else 2);
             g0 = g\<lparr>speed := currentSpeed\<rparr>
         in if isMerging g0 then mergeMove M T g0
            else
              (let g1 =
                 (if atCenter T currentSpeed g0 \<or> direction g0 = None then
                    (let gc = snapToCenter T g0;
                         av = available gc mz
                     in if length av > 0 then
                          (if direction gc \<noteq> None \<and> canMove gc (direction gc) mz \<and> fst r < 0.7
                           then gc
                           else gc\<lparr>direction := pick av (snd r)\<rparr>)
                        else gc)
                  else g0)
               in moveStep T g1)))"

section \<open>Class \<open>UltimateGhost\<close>\<close>

definition newUltimateGhost :: "real \<Rightarrow> int \<Rightarrow> int \<Rightarrow> Ghost" where
  "newUltimateGhost T gx gy = (newGhost T gx gy (Some ''#6c5ce7''))\<lparr>speed := 3, merged := True\<rparr>"

text \<open>
  The comparator of \<open>available.sort\<close> orders by the distance from the neighbouring cell to
  the player's cell; \<open>Array.prototype.sort\<close> is stable, as \<open>sort_key\<close> is.
\<close>

definition distToPacman :: "'a Entity_scheme \<Rightarrow> 'b Entity_scheme \<Rightarrow> Direction \<Rightarrow> real" where
  "distToPacman g pac d =
     (case nextCell d (gridX g, gridY g) of (ax, ay) \<Rightarrow>
        hypot (of_int (ax - gridX pac)) (of_int (ay - gridY pac)))"

definition updateChasingAI ::
    "real \<Rightarrow> TileType list list \<Rightarrow> 'b Entity_scheme \<Rightarrow> real \<times> real \<Rightarrow> Ghost \<Rightarrow> Ghost" where
  "updateChasingAI T mz pac r g =
     (let g1 =
        (if atCenter T (speed g) g \<or> direction g = None then
           (let gc = snapToCenter T g;
                av = filter (\<lambda>d. canMove gc (Some d) mz) directions
            in if length av > 0 then
                 (let sorted_av = sort_key (distToPacman gc pac) av
                  in if fst r < 0.8 then gc\<lparr>direction := cellAt sorted_av 0\<rparr>
                     else gc\<lparr>direction := pick sorted_av (snd r)\<rparr>)
               else gc)
         else g)
      in moveStep T g1)"

section \<open>Component \<open>App\<close>\<close>

text \<open>The state before the first game: the initial values of the refs and of \<open>useState\<close>.\<close>

definition initialData :: GameData where
  "initialData =
     \<lparr>pacman = None, ghosts = [], ultimateGhost = None, maze = [],
      score = 0, scoreState = 0, gameState = START, pelletsLeft = 0\<rparr>"

subsection \<open>\<open>initGame\<close>\<close>

text \<open>
  The two nested loops of \<open>initGame\<close> over the copied layout, with the accumulator
  \<open>(pCount, pacmanStart, ghostStarts)\<close>; positions are \<open>(x, y)\<close>.
\<close>

type_synonym scan = "int \<times> (int \<times> int) \<times> (int \<times> int) list"

fun scanRow :: "int \<Rightarrow> int \<Rightarrow> TileType list \<Rightarrow> scan \<Rightarrow> scan" where
  "scanRow cy cx [] acc = acc"
| "scanRow cy cx (t # ts) (pCount, pacmanStart, ghostStarts) =
     scanRow cy (cx + 1) ts
       (if t = PELLET then pCount + 1 else pCount,
        if t = PACMAN_START then (cx, cy) else pacmanStart,
        if t = GHOST_START then ghostStarts @ [(cx, cy)] else ghostStarts)"

fun scanMap :: "int \<Rightarrow> TileType list list \<Rightarrow> scan \<Rightarrow> scan" where
  "scanMap cy [] acc = acc"
| "scanMap cy (row # rows) acc = scanMap (cy + 1) rows (scanRow cy 0 row acc)"

text \<open>\<open>COLORS.GHOSTS[i % COLORS.GHOSTS.length]\<close>; \<open>undefined\<close> for an empty list.\<close>

definition ghostColor :: "string list \<Rightarrow> nat \<Rightarrow> string option" where
  "ghostColor cs i = (if cs = [] then None else Some (cs ! (i mod length cs)))"

definition initGame :: "real \<Rightarrow> string list \<Rightarrow> TileType list list \<Rightarrow> GameData" where
  "initGame T cs MAP =
     (case scanMap 0 MAP (0, (9, 15), []) of (pCount, pacmanStart, ghostStarts) \<Rightarrow>
        \<lparr>pacman = Some ((newEntity T (fst pacmanStart) (snd pacmanStart))
                         \<lparr>direction := Some LEFT, nextDirection := Some LEFT\<rparr>),
         ghosts = map (\<lambda>(i, pos). newGhost T (fst pos) (snd pos) (ghostColor cs i))
                      (enumerate 0 ghostStarts),
         ultimateGhost = None,
         maze = MAP,
         score = 0, scoreState = 0, gameState = PLAYING, pelletsLeft = pCount\<rparr>)"

subsection \<open>\<open>handleKeyDown\<close>\<close>

definition handleKeyDown :: "string \<Rightarrow> GameData \<Rightarrow> GameData" where
  "handleKeyDown k st =
     (case pacman st of
        None \<Rightarrow> st
      | Some p \<Rightarrow>
          (let p1 = (if k = ''ArrowUp'' then p\<lparr>nextDirection := Some UP\<rparr> else p);
               p2 = (if k = ''ArrowDown'' then p1\<lparr>nextDirection := Some DOWN\<rparr> else p1);
               p3 = (if k = ''ArrowLeft'' then p2\<lparr>nextDirection := Some LEFT\<rparr> else p2);
               p4 = (if k = ''ArrowRight'' then p3\<lparr>nextDirection := Some RIGHT\<rparr> else p3)
           in st\<lparr>pacman := Some p4\<rparr>))"

subsection \<open>\<open>draw\<close>\<close>

text \<open>
  The block \<open>// Eat pellet\<close>. \<open>map[pacman.gridY]\<close> is \<open>undefined\<close> for a row index out of
  range, and reading a property of it throws a \<open>TypeError\<close>. The Boolean of the result
  says whether the block has passed its function to \<open>setPelletsLeft\<close>; that function is
  \<open>pelletsUpdater\<close> and runs later.
\<close>

definition eatPellet :: "Entity \<Rightarrow> GameData \<Rightarrow> error + GameData \<times> bool" where
  "eatPellet pac st =
     (if gridY pac < 0 \<or> int (length (maze st)) \<le> gridY pac then Inl TypeError
      else if cellAt (maze st ! nat (gridY pac)) (gridX pac) = Some PELLET then
        (let row = maze st ! nat (gridY pac);
             st1 = st\<lparr>maze := (maze st)[nat (gridY pac) := row[nat (gridX pac) := EMPTY]],
                      score := score st + 10\<rparr>;
             st2 = st1\<lparr>scoreState := score st1\<rparr>;
             st3 = (if 1800 \<le> score st2 then st2\<lparr>gameState := WON\<rparr> else st2)
         in Inr (st3, True))
      else Inr (st, False))"

text \<open>
  The function \<open>p => { if (p - 1 === 0) setGameState('WON'); return p - 1; }\<close>, applied
  to the state in which React runs it.
\<close>

definition pelletsUpdater :: "GameData \<Rightarrow> GameData" where
  "pelletsUpdater st =
     (let p = pelletsLeft st;
          st1 = (if p - 1 = 0 then st\<lparr>gameState := WON\<rparr> else st)
      in st1\<lparr>pelletsLeft := p - 1\<rparr>)"

text \<open>
  The body of \<open>ghosts.forEach\<close> for one ghost: the merge flag, \<open>updateAI\<close>, and the
  collision test, which may set the phase.
\<close>

definition ghostTick ::
    "MathOps \<Rightarrow> real \<Rightarrow> TileType list list \<Rightarrow> int \<Rightarrow> Entity \<Rightarrow> real \<times> real \<Rightarrow> Ghost \<Rightarrow> Phase \<Rightarrow>
     Ghost \<times> Phase" where
  "ghostTick M T mz sc pac r ghost ph =
     (let g1 = (if 1500 \<le> sc then ghost\<lparr>isMerging := True\<rparr> else ghost);
          g2 = updateAI M T mz r g1
      in if \<not> merged g2 then
           (let dist = hypot (xpos pac - xpos g2) (ypos pac - ypos g2)
            in (g2, if dist < T / 1.5 \<and> \<not> isMerging g2 then LOST else ph))
         else (g2, ph))"

fun forEachGhost ::
    "MathOps \<Rightarrow> real \<Rightarrow> TileType list list \<Rightarrow> int \<Rightarrow> Entity \<Rightarrow> (nat \<Rightarrow> real \<times> real) \<Rightarrow> nat \<Rightarrow>
     Ghost list \<Rightarrow> Phase \<Rightarrow> Ghost list \<times> Phase" where
  "forEachGhost M T mz sc pac rnd i [] ph = ([], ph)"
| "forEachGhost M T mz sc pac rnd i (g # gs) ph =
     (case ghostTick M T mz sc pac (rnd i) g ph of (g', ph') \<Rightarrow>
        (case forEachGhost M T mz sc pac rnd (Suc i) gs ph' of (gs', ph'') \<Rightarrow> (g' # gs', ph'')))"

text \<open>The block \<open>// Draw merged entity if all are merged\<close>.\<close>

definition ultimateStage :: "real \<Rightarrow> real \<times> real \<Rightarrow> Entity \<Rightarrow> GameData \<Rightarrow> GameData" where
  "ultimateStage T r pac st =
     (let allMerged = (length (ghosts st) > 0 \<and> list_all merged (ghosts st))
      in if allMerged then
           (let ug0 = (case ultimateGhost st of None \<Rightarrow> newUltimateGhost T 9 9 | Some u \<Rightarrow> u);
                ug = updateChasingAI T (maze st) pac r ug0;
                dist = hypot (xpos pac - xpos ug) (ypos pac - ypos ug);
                st1 = st\<lparr>ultimateGhost := Some ug\<rparr>
            in if dist < T / 1.2 then st1\<lparr>gameState := LOST\<rparr> else st1)
         else st)"

text \<open>
  One frame: \<open>draw\<close>, followed by the render in which React runs the function that the
  frame has queued, if it has queued one.
\<close>

definition draw ::
    "MathOps \<Rightarrow> real \<Rightarrow> (nat \<Rightarrow> real \<times> real) \<Rightarrow> real \<times> real \<Rightarrow> GameData \<Rightarrow> error + GameData" where
  "draw M T rnd urnd st =
     (case pacman st of
        None \<Rightarrow> Inr st
      | Some p0 \<Rightarrow>
          (let pac = updatePosition T (maze st) p0;
               st1 = st\<lparr>pacman := Some pac\<rparr>
           in case eatPellet pac st1 of
                Inl e \<Rightarrow> Inl e
              | Inr (st2, queued) \<Rightarrow>
                  (case forEachGhost M T (maze st2) (score st2) pac rnd 0 (ghosts st2) (gameState st2)
                   of (gs, ph) \<Rightarrow>
                     (let st3 = ultimateStage T urnd pac (st2\<lparr>ghosts := gs, gameState := ph\<rparr>)
                      in Inr (if queued then pelletsUpdater st3 else st3)))))"

text \<open>\<open>draw\<close> is scheduled for the next frame only while the phase is \<open>PLAYING\<close>.\<close>

definition frame ::
    "MathOps \<Rightarrow> real \<Rightarrow> (nat \<Rightarrow> real \<times> real) \<Rightarrow> real \<times> real \<Rightarrow> GameData \<Rightarrow> error + GameData" where
  "frame M T rnd urnd st = (if gameState st = PLAYING then draw M T rnd urnd st else Inr st)"

subsection \<open>The respawn interval\<close>

definition pacmanAt :: "Entity option \<Rightarrow> int \<Rightarrow> int \<Rightarrow> bool" where
  "pacmanAt p cx cy = (case p of None \<Rightarrow> False | Some e \<Rightarrow> gridX e = cx \<and> gridY e = cy)"

text \<open>
  The inner loop over the cells \<open>MAP[y][x]\<close> of one row of the layout, from column \<open>cx\<close>
  on; the state is the live grid and \<open>respawnedCount\<close>. \<open>currentMap[y][x]\<close> is evaluated
  only when \<open>MAP[y][x]\<close> is a pellet, and throws when the live grid has no row \<open>y\<close>.
\<close>

fun respawnRow ::
    "Entity option \<Rightarrow> nat \<Rightarrow> nat \<Rightarrow> TileType list \<Rightarrow> TileType list list \<times> int \<Rightarrow>
     error + TileType list list \<times> int" where
  "respawnRow p cy cx [] s = Inr s"
| "respawnRow p cy cx (t # ts) (cur, n) =
     (if t = PELLET then
        (if length cur \<le> cy then Inl TypeError
         else if cellAt (cur ! cy) (int cx) = Some EMPTY then
           (if pacmanAt p (int cx) (int cy) then respawnRow p cy (Suc cx) ts (cur, n)
            else respawnRow p cy (Suc cx) ts (cur[cy := (cur ! cy)[cx := PELLET]], n + 1))
         else respawnRow p cy (Suc cx) ts (cur, n))
      else respawnRow p cy (Suc cx) ts (cur, n))"

fun respawnRows ::
    "Entity option \<Rightarrow> nat \<Rightarrow> TileType list list \<Rightarrow> TileType list list \<times> int \<Rightarrow>
     error + TileType list list \<times> int" where
  "respawnRows p cy [] s = Inr s"
| "respawnRows p cy (row # rows) s =
     (case respawnRow p cy 0 row s of
        Inl e \<Rightarrow> Inl e
      | Inr s' \<Rightarrow> respawnRows p (Suc cy) rows s')"

definition respawnPellets ::
    "TileType list list \<Rightarrow> Entity option \<Rightarrow> TileType list list \<Rightarrow> error + TileType list list \<times> int" where
  "respawnPellets MAP p cur = respawnRows p 0 MAP (cur, 0)"

text \<open>The callback of \<open>setInterval\<close>.\<close>

definition respawnTick :: "TileType list list \<Rightarrow> GameData \<Rightarrow> error + GameData" where
  "respawnTick MAP st =
     (if gameState st = PLAYING then
        (case respawnPellets MAP (pacman st) (maze st) of
           Inl e \<Rightarrow> Inl e
         | Inr (cur, respawnedCount) \<Rightarrow>
             Inr (st\<lparr>maze := cur,
                     pelletsLeft := (if respawnedCount > 0 then pelletsLeft st + respawnedCount
                                     else pelletsLeft st)\<rparr>))
      else Inr st)"

subsection \<open>Runs of one game\<close>

text \<open>
  What can happen between \<open>initGame\<close> and the next reset: a frame, a key press, or the
  respawn interval firing. A run stops at the first exception.
\<close>

datatype Event = Frame "nat \<Rightarrow> real \<times> real" "real \<times> real" | KeyDown string | RespawnInterval

definition applyEvent ::
    "MathOps \<Rightarrow> real \<Rightarrow> TileType list list \<Rightarrow> Event \<Rightarrow> GameData \<Rightarrow> error + GameData" where
  "applyEvent M T MAP ev st =
     (case ev of
        Frame rnd urnd \<Rightarrow> frame M T rnd urnd st
      | KeyDown k \<Rightarrow> Inr (handleKeyDown k st)
      | RespawnInterval \<Rightarrow> respawnTick MAP st)"

fun runGame ::
    "MathOps \<Rightarrow> real \<Rightarrow> TileType list list \<Rightarrow> Event list \<Rightarrow> GameData \<Rightarrow> error + GameData" where
  "runGame M T MAP [] st = Inr st"
| "runGame M T MAP (ev # evs) st =
     (case applyEvent M T MAP ev st of
        Inl e \<Rightarrow> Inl e
      | Inr st' \<Rightarrow> runGame M T MAP evs st')"

section \<open>Definitions used by the statements\<close>

text \<open>The direction an arrow key stands for; any other key stands for none.\<close>

definition keyDirection :: "string \<Rightarrow> Direction option" where
  "keyDirection k =
     (if k = ''ArrowRight'' then Some RIGHT
      else if k = ''ArrowLeft'' then Some LEFT
      else if k = ''ArrowDown'' then Some DOWN
      else if k = ''ArrowUp'' then Some UP
      else None)"

text \<open>
  The collision condition of a roaming ghost in the words of the specification: the ghost
  is not merged, is not merging, and is closer to the player than two thirds of a tile.
\<close>

definition collides :: "real \<Rightarrow> Entity \<Rightarrow> Ghost \<Rightarrow> bool" where
  "collides T pac g =
     (\<not> merged g \<and> \<not> isMerging g \<and> hypot (xpos pac - xpos g) (ypos pac - ypos g) < 2 * T / 3)"

text \<open>The invariant of the specification: the grid cell is the floor of position over tile size.\<close>

definition gridSync :: "real \<Rightarrow> 'a Entity_scheme \<Rightarrow> bool" where
  "gridSync T e = (gridX e = \<lfloor>xpos e / T\<rfloor> \<and> gridY e = \<lfloor>ypos e / T\<rfloor>)"

text \<open>
  What the merge branch needs of its arithmetic to keep the grid cell in step: the computed
  hypotenuse is not shorter than either side, and rounding brings no value of magnitude 5
  or more below 5. Rounding to the nearest double is monotone and 5 is a double, so double
  arithmetic rounds that way.
\<close>

definition boundedMath :: "MathOps \<Rightarrow> bool" where
  "boundedMath M =
     (\<forall>a b v. \<bar>a\<bar> \<le> mathHypot M a b \<and> \<bar>b\<bar> \<le> mathHypot M a b \<and>
              (\<bar>roundDouble M v\<bar> < 5 \<longrightarrow> \<bar>v\<bar> < 5))"

text \<open>
  The tile of a grid at row \<open>cy\<close> and column \<open>cx\<close>, or none outside the grid.
\<close>

definition tileAt :: "TileType list list \<Rightarrow> nat \<Rightarrow> nat \<Rightarrow> TileType option" where
  "tileAt mz cy cx = (if cy < length mz then cellAt (mz ! cy) (int cx) else None)"

text \<open>
  A cell is due for respawn, in the words of the specification: the original layout has
  a pellet there, the live grid has \<open>EMPTY\<close>, and the player is not on it.
\<close>

definition respawnDue :: "TileType list list \<Rightarrow> Entity option \<Rightarrow> TileType list list \<Rightarrow> nat \<Rightarrow> nat \<Rightarrow> bool" where
  "respawnDue MAP p cur cy cx =
     (tileAt MAP cy cx = Some PELLET \<and> tileAt cur cy cx = Some EMPTY \<and> \<not> pacmanAt p (int cx) (int cy))"

text \<open>The cells of the rest \<open>ts\<close> of a layout row, from column \<open>cx\<close> on, that are due.\<close>

definition dueRow ::
    "Entity option \<Rightarrow> nat \<Rightarrow> nat \<Rightarrow> TileType list \<Rightarrow> TileType list list \<Rightarrow> nat \<Rightarrow> nat \<Rightarrow> bool" where
  "dueRow p cy cx ts cur y x =
     (y = cy \<and> cx \<le> x \<and> x < cx + length ts \<and> ts ! (x - cx) = PELLET \<and>
      tileAt cur y x = Some EMPTY \<and> \<not> pacmanAt p (int x) (int y))"

text \<open>The cells of the rest \<open>rows\<close> of the layout, from row \<open>cy\<close> on, that are due.\<close>

definition dueRows ::
    "Entity option \<Rightarrow> nat \<Rightarrow> TileType list list \<Rightarrow> TileType list list \<Rightarrow> nat \<Rightarrow> nat \<Rightarrow> bool" where
  "dueRows p cy rows cur y x =
     (cy \<le> y \<and> y < cy + length rows \<and> tileAt rows (y - cy) x = Some PELLET \<and>
      tileAt cur y x = Some EMPTY \<and> \<not> pacmanAt p (int x) (int y))"

text \<open>The rows of the live grid that the loop reads: those whose layout row has a pellet.\<close>

definition rowsRead :: "nat \<Rightarrow> TileType list list \<Rightarrow> nat \<Rightarrow> bool" where
  "rowsRead cy rows n = list_all (\<lambda>(i, row). PELLET \<in> set row \<longrightarrow> i < n) (enumerate cy rows)"

text \<open>
  The convergence step in the words of the specification: from the point \<open>p\<close>, 3 units
  along the straight line to the centre of cell (9, 9). At the centre itself the line has
  no direction; the angle \<open>Math.atan2(0, 0)\<close> of the code is 0 there, a step along the x
  axis.
\<close>

definition towardCenter :: "real \<Rightarrow> real \<times> real \<Rightarrow> real \<times> real" where
  "towardCenter T p =
     (let c = 9 * T + T / 2;
          d = hypot (c - fst p) (c - snd p)
      in if d = 0 then (fst p + 3, snd p)
         else (fst p + 3 * (c - fst p) / d, snd p + 3 * (c - snd p) / d))"

text \<open>
  What the specification says of a converging ghost \<open>g\<close> and its state \<open>g'\<close> after the
  tick: the step is 3 units long; if it ends less than 5 units from the centre the ghost
  is merged, sits exactly on the centre and has no direction; otherwise it is not merged
  and sits where the step ended, with its direction untouched.
\<close>

definition converges :: "real \<Rightarrow> Ghost \<Rightarrow> Ghost \<Rightarrow> bool" where
  "converges T g g' =
     (let c = 9 * T + T / 2;
          q = towardCenter T (xpos g, ypos g)
      in hypot (fst q - xpos g) (snd q - ypos g) = 3 \<and>
         (if hypot (fst q - c) (snd q - c) < 5
          then merged g' \<and> xpos g' = c \<and> ypos g' = c \<and> direction g' = None
          else \<not> merged g' \<and> xpos g' = fst q \<and> ypos g' = snd q \<and> direction g' = direction g))"

text \<open>
  The step of a converging ghost as the code computes it with the arithmetic \<open>M\<close>: the
  position moves by the computed vector (cos a * 3, sin a * 3), where a is the computed
  angle of the offset to the centre of cell (9, 9); if the computed distance from there to
  the centre is less than 5 the ghost is merged, sits exactly on the centre and has no
  direction; otherwise it is not merged and sits where the step ended, with its direction
  untouched.
\<close>

definition advances :: "MathOps \<Rightarrow> real \<Rightarrow> Ghost \<Rightarrow> Ghost \<Rightarrow> bool" where
  "advances M T g g' =
     (let c = 9 * T + T / 2;
          a = mathAtan2 M (roundDouble M (c - ypos g)) (roundDouble M (c - xpos g));
          nx = roundDouble M (xpos g + roundDouble M (mathCos M a * 3));
          ny = roundDouble M (ypos g + roundDouble M (mathSin M a * 3))
      in if mathHypot M (roundDouble M (nx - c)) (roundDouble M (ny - c)) < 5
         then merged g' \<and> xpos g' = c \<and> ypos g' = c \<and> direction g' = None
         else \<not> merged g' \<and> xpos g' = nx \<and> ypos g' = ny \<and> direction g' = direction g)"

text \<open>
  The frame from \<open>st\<close> to \<open>st'\<close> has eaten the last counted pellet: the count went from 1
  to 0. A frame changes the count only by eating a pellet.
\<close>

definition lastPelletEaten :: "GameData \<Rightarrow> GameData \<Rightarrow> bool" where
  "lastPelletEaten st st' = (pelletsLeft st = 1 \<and> pelletsLeft st' = 0)"

text \<open>
  The ultimate ghost has caught the player in the state a frame ends with: all ghosts are
  merged, and player and ultimate ghost are less than five sixths of a tile apart.
\<close>

definition caught :: "real \<Rightarrow> GameData \<Rightarrow> bool" where
  "caught T st' =
     (ghosts st' \<noteq> [] \<and> list_all merged (ghosts st') \<and>
      (case pacman st' of
         None \<Rightarrow> False
       | Some pac \<Rightarrow>
           (case ultimateGhost st' of
              None \<Rightarrow> False
            | Some ug \<Rightarrow> hypot (xpos pac - xpos ug) (ypos pac - ypos ug) < 5 * T / 6)))"

subsection \<open>Concrete states\<close>

text \<open>A game that was started on a one-cell layout and then lost.\<close>

definition lostState :: GameData where
  "lostState = (initGame 32 [] [[PACMAN_START]])\<lparr>gameState := LOST\<rparr>"

text \<open>
  An open 12 by 11 maze with tiles of size 32. The only ghost has merged; the ultimate
  ghost is two units short of the centre of cell (10, 9), heading right; the player is at
  the centre of cell (9, 9), heading left.
\<close>

definition chaseState :: GameData where
  "chaseState =
     \<lparr>pacman = Some ((newEntity 32 9 9)\<lparr>direction := Some LEFT\<rparr>),
      ghosts = [(newGhost 32 9 9 None)\<lparr>speed := 3, isMerging := True, merged := True\<rparr>],
      ultimateGhost = Some ((newUltimateGhost 32 10 9)\<lparr>xpos := 334, direction := Some RIGHT\<rparr>),
      maze = replicate 11 (replicate 12 EMPTY),
      score = 1500, scoreState = 1500, gameState = PLAYING, pelletsLeft = 30\<rparr>"

text \<open>The same, with the ultimate ghost between the cell centres and heading left.\<close>

definition caughtState :: GameData where
  "caughtState =
     chaseState\<lparr>ultimateGhost :=
       Some ((newUltimateGhost 32 10 9)\<lparr>xpos := 322, direction := Some LEFT\<rparr>)\<rparr>"

text \<open>The same maze at score 0, with one roaming ghost 18 units left of the player.\<close>

definition roamState :: GameData where
  "roamState =
     \<lparr>pacman = Some ((newEntity 32 9 9)\<lparr>direction := Some LEFT\<rparr>),
      ghosts = [(newGhost 32 8 9 None)\<lparr>xpos := 286, direction := Some RIGHT\<rparr>],
      ultimateGhost = None,
      maze = replicate 11 (replicate 12 EMPTY),
      score = 0, scoreState = 0, gameState = PLAYING, pelletsLeft = 30\<rparr>"

text \<open>A maze full of pellets, no ghost, score 20, and one pellet left to count.\<close>

definition pelletState :: GameData where
  "pelletState =
     \<lparr>pacman = Some ((newEntity 32 9 9)\<lparr>direction := Some LEFT\<rparr>),
      ghosts = [],
      ultimateGhost = None,
      maze = replicate 11 (replicate 12 PELLET),
      score = 20, scoreState = 20, gameState = PLAYING, pelletsLeft = 1\<rparr>"

text \<open>
  A ghost heading right at the centre of cell (1, 0), for the corridor
  \<open>[[EMPTY, EMPTY, WALL]]\<close> whose right end is a wall.
\<close>

definition deadEndGhost :: Ghost where
  "deadEndGhost = (newGhost 32 1 0 None)\<lparr>direction := Some RIGHT\<rparr>"

text \<open>A roaming ghost between two cell centres, and a merging ghost 6 units right of the centre.\<close>

definition roamingGhost :: Ghost where
  "roamingGhost = (newGhost 32 8 9 None)\<lparr>xpos := 286, direction := Some RIGHT\<rparr>"

definition mergingGhost :: Ghost where
  "mergingGhost = (newGhost 32 9 9 None)\<lparr>xpos := 310, isMerging := True\<rparr>"

text \<open>
  A corridor of two cells, the left one with a pellet and the right one the player's
  start, and frames in which every random number is 0.
\<close>

definition corridorMap :: "TileType list list" where
  "corridorMap = [[PELLET, PACMAN_START]]"

definition stillFrame :: Event where
  "stillFrame = Frame (\<lambda>i. (0, 0)) (0, 0)"

definition eightFrames :: "Event list" where
  "eightFrames = [stillFrame, stillFrame, stillFrame, stillFrame,
                  stillFrame, stillFrame, stillFrame, stillFrame]"



text \<open>
  \<open>caughtState\<close> at score 1790 with a pellet under the player, and \<open>roamState\<close> with the
  last counted pellet under the player.
\<close>

definition winCaughtState :: GameData where
  "winCaughtState =
     caughtState\<lparr>maze := (replicate 11 (replicate 12 EMPTY))[9 := (replicate 12 EMPTY)[9 := PELLET]],
                  score := 1790, scoreState := 1790\<rparr>"

definition lastPelletState :: GameData where
  "lastPelletState =
     roamState\<lparr>maze := (replicate 11 (replicate 12 EMPTY))[9 := (replicate 12 EMPTY)[9 := PELLET]],
                pelletsLeft := 1\<rparr>"

section \<open>Facts about the helpers\<close>

lemma hypot_zero_right [simp]: "hypot a 0 = \<bar>a\<bar>"
  by (simp add: hypot_def)

lemma hypot_le_hypot_iff: "hypot a b \<le> hypot c d \<longleftrightarrow> a\<^sup>2 + b\<^sup>2 \<le> c\<^sup>2 + d\<^sup>2"
  by (simp add: hypot_def)

lemma hypot_le_zero_iff: "hypot a b \<le> 0 \<longleftrightarrow> a = 0 \<and> b = 0"
  by (simp add: hypot_def sum_power2_le_zero_iff)

text \<open>The definitions that evaluate a frame on a concrete state.\<close>

lemmas eval_defs =
  draw_def updatePosition_def atCenter_def snapToCenter_def canMove_def
  nextCell_def cellAt_def moveStep_def eatPellet_def ultimateStage_def updateChasingAI_def
  newUltimateGhost_def newGhost_def newEntity_def directions_def pick_def updateAI_def ghostTick_def
  pelletsUpdater_def
  distToPacman_def Let_def hypot_le_hypot_iff hypot_le_zero_iff

section \<open>The stages of a frame\<close>

lemma ghostTick_phase:
  "ghostTick M T mz sc pac r g ph = (g', ph') \<Longrightarrow> ph' = (if collides T pac g' then LOST else ph)"
  by (auto simp: ghostTick_def collides_def Let_def split: if_splits)

lemma ghostTick_ghost:
  "fst (ghostTick M T mz sc pac r g ph) =
     updateAI M T mz r (if 1500 \<le> sc then g\<lparr>isMerging := True\<rparr> else g)"
  by (simp add: ghostTick_def Let_def)

lemma forEachGhost_phase:
  "forEachGhost M T mz sc pac rnd i gs ph = (gs', ph') \<Longrightarrow>
   ph' = (if \<exists>g \<in> set gs'. collides T pac g then LOST else ph)"
proof (induction gs arbitrary: i ph gs' ph')
  case Nil
  then show ?case by simp
next
  case (Cons g gs)
  obtain g1 ph1 where t: "ghostTick M T mz sc pac (rnd i) g ph = (g1, ph1)"
    by (cases "ghostTick M T mz sc pac (rnd i) g ph")
  obtain gs2 ph2 where f: "forEachGhost M T mz sc pac rnd (Suc i) gs ph1 = (gs2, ph2)"
    by (cases "forEachGhost M T mz sc pac rnd (Suc i) gs ph1")
  from Cons.prems t f have e: "gs' = g1 # gs2" "ph' = ph2" by simp_all
  from Cons.IH [OF f] ghostTick_phase [OF t] e show ?case by auto
qed



lemma eatPellet_frame:
  "eatPellet pac st = Inr (st2, queued) \<Longrightarrow>
   pacman st2 = pacman st \<and> ghosts st2 = ghosts st \<and> ultimateGhost st2 = ultimateGhost st \<and>
   pelletsLeft st2 = pelletsLeft st"
  by (auto simp: eatPellet_def Let_def split: if_splits)

lemma eatPellet_phase:
  "eatPellet pac st = Inr (st2, queued) \<Longrightarrow> gameState st2 = gameState st \<or> gameState st2 = WON"
  by (auto simp: eatPellet_def Let_def split: if_splits)

lemma eatPellet_not_queued: "eatPellet pac st = Inr (st2, False) \<Longrightarrow> st2 = st"
  by (auto simp: eatPellet_def Let_def split: if_splits)

lemma pelletsUpdater_frame:
  "pacman (pelletsUpdater st) = pacman st \<and> ghosts (pelletsUpdater st) = ghosts st \<and>
   ultimateGhost (pelletsUpdater st) = ultimateGhost st \<and> maze (pelletsUpdater st) = maze st \<and>
   score (pelletsUpdater st) = score st \<and> scoreState (pelletsUpdater st) = scoreState st \<and>
   pelletsLeft (pelletsUpdater st) = pelletsLeft st - 1"
  by (simp add: pelletsUpdater_def Let_def)

lemma pelletsUpdater_phase:
  "gameState (pelletsUpdater st) = (if pelletsLeft st - 1 = 0 then WON else gameState st)"
  by (simp add: pelletsUpdater_def Let_def)

lemma ultimateStage_frame:
  "pacman (ultimateStage T r pac st) = pacman st \<and> ghosts (ultimateStage T r pac st) = ghosts st \<and>
   maze (ultimateStage T r pac st) = maze st \<and> score (ultimateStage T r pac st) = score st \<and>
   scoreState (ultimateStage T r pac st) = scoreState st \<and>
   pelletsLeft (ultimateStage T r pac st) = pelletsLeft st"
  by (simp add: ultimateStage_def Let_def)

lemma ultimateStage_phase:
  "gameState (ultimateStage T r pac st) = gameState st \<or> gameState (ultimateStage T r pac st) = LOST"
  by (simp add: ultimateStage_def Let_def)

lemma draw_Some:
  assumes "pacman st = Some p0"
  shows "draw M T rnd urnd st =
     (case eatPellet (updatePosition T (maze st) p0) (st\<lparr>pacman := Some (updatePosition T (maze st) p0)\<rparr>) of
        Inl e \<Rightarrow> Inl e
      | Inr (st2, queued) \<Rightarrow>
          Inr (let st3 =
                 ultimateStage T urnd (updatePosition T (maze st) p0)
                   (st2\<lparr>ghosts := fst (forEachGhost M T (maze st2) (score st2) (updatePosition T (maze st) p0)
                                          rnd 0 (ghosts st2) (gameState st2)),
                        gameState := snd (forEachGhost M T (maze st2) (score st2) (updatePosition T (maze st) p0)
                                          rnd 0 (ghosts st2) (gameState st2))\<rparr>)
               in if queued then pelletsUpdater st3 else st3))"
  using assms by (simp add: draw_def Let_def split_def split: sum.splits)

text \<open>
  A frame in its stages: \<open>st2\<close> leaves the pellet block, \<open>mid\<close> leaves the ghost loop,
  \<open>fin\<close> leaves \<open>draw\<close>, and the queued function, if any, turns \<open>fin\<close> into the result.
\<close>

lemma draw_stages:
  assumes "draw M T rnd urnd st = Inr st'" and "pacman st = Some p0"
  obtains st2 queued mid fin where
    "eatPellet (updatePosition T (maze st) p0) (st\<lparr>pacman := Some (updatePosition T (maze st) p0)\<rparr>) =
       Inr (st2, queued)"
    "fin = ultimateStage T urnd (updatePosition T (maze st) p0) mid"
    "st' = (if queued then pelletsUpdater fin else fin)"
    "ghosts mid = ghosts st'" "maze mid = maze st2" "score mid = score st2"
    "pelletsLeft mid = pelletsLeft st" "ultimateGhost mid = ultimateGhost st"
    "gameState mid =
       (if \<exists>g \<in> set (ghosts st'). collides T (updatePosition T (maze st) p0) g then LOST
        else gameState st2)"
    "ghosts st' = fst (forEachGhost M T (maze st2) (score st2) (updatePosition T (maze st) p0) rnd 0
                        (ghosts st) (gameState st2))"
proof -
  let ?pac = "updatePosition T (maze st) p0"
  obtain st2 queued where e: "eatPellet ?pac (st\<lparr>pacman := Some ?pac\<rparr>) = Inr (st2, queued)"
    using assms by (auto simp: draw_Some split: sum.splits)
  let ?f = "forEachGhost M T (maze st2) (score st2) ?pac rnd 0 (ghosts st2) (gameState st2)"
  let ?mid = "st2\<lparr>ghosts := fst ?f, gameState := snd ?f\<rparr>"
  let ?fin = "ultimateStage T urnd ?pac ?mid"
  have s: "st' = (if queued then pelletsUpdater ?fin else ?fin)"
    using assms e by (simp add: draw_Some Let_def)
  have g: "ghosts st' = fst ?f"
    by (simp add: s ultimateStage_frame pelletsUpdater_frame)
  have "?f = (fst ?f, snd ?f)" by simp
  from forEachGhost_phase [OF this]
  have p: "snd ?f = (if \<exists>g \<in> set (ghosts st'). collides T ?pac g then LOST else gameState st2)"
    using g by simp
  have u: "ultimateGhost st2 = ultimateGhost st" "ghosts st2 = ghosts st"
    "pelletsLeft st2 = pelletsLeft st"
    using eatPellet_frame [OF e] by simp_all
  show ?thesis
  proof (rule that [of st2 queued ?fin ?mid])
    show "eatPellet ?pac (st\<lparr>pacman := Some ?pac\<rparr>) = Inr (st2, queued)" by (rule e)
    show "?fin = ultimateStage T urnd ?pac ?mid" by simp
    show "st' = (if queued then pelletsUpdater ?fin else ?fin)" by (rule s)
    show "ghosts ?mid = ghosts st'" using g by simp
    show "gameState ?mid = (if \<exists>g \<in> set (ghosts st'). collides T ?pac g then LOST else gameState st2)"
      using p by simp
    show "ghosts st' = fst (forEachGhost M T (maze st2) (score st2) ?pac rnd 0 (ghosts st) (gameState st2))"
      using g u by simp
  qed (simp_all add: u)
qed

lemma draw_pacman:
  assumes "draw M T rnd urnd st = Inr st'" and "pacman st = Some p0"
  shows "pacman st' = Some (updatePosition T (maze st) p0)"
proof -
  let ?pac = "updatePosition T (maze st) p0"
  obtain st2 queued where e: "eatPellet ?pac (st\<lparr>pacman := Some ?pac\<rparr>) = Inr (st2, queued)"
    using assms by (auto simp: draw_Some split: sum.splits)
  from eatPellet_frame [OF e] assms e show ?thesis
    by (auto simp: draw_Some Let_def ultimateStage_frame pelletsUpdater_frame)
qed

text \<open>At a score of 1500 or more every ghost leaves the loop merging, and none collides.\<close>

lemma isMerging_updateAI: "isMerging (updateAI M T mz r g) = isMerging g"
  by (simp add: updateAI_def mergeMove_def moveStep_def snapToCenter_def Let_def split: option.splits)

lemma forEachGhost_merging:
  "1500 \<le> sc \<Longrightarrow> g \<in> set (fst (forEachGhost M T mz sc pac rnd i gs ph)) \<Longrightarrow> isMerging g"
proof (induction gs arbitrary: i ph)
  case Nil
  then show ?case by simp
next
  case (Cons a gs)
  from Cons.prems(2) have "g = fst (ghostTick M T mz sc pac (rnd i) a ph) \<or>
      g \<in> set (fst (forEachGhost M T mz sc pac rnd (Suc i) gs (snd (ghostTick M T mz sc pac (rnd i) a ph))))"
    by (simp add: split_def)
  then show ?case
  proof
    assume "g = fst (ghostTick M T mz sc pac (rnd i) a ph)"
    with Cons.prems(1) show ?thesis by (simp add: ghostTick_ghost isMerging_updateAI)
  next
    assume "g \<in> set (fst (forEachGhost M T mz sc pac rnd (Suc i) gs (snd (ghostTick M T mz sc pac (rnd i) a ph))))"
    with Cons.prems(1) show ?thesis by (rule Cons.IH)
  qed
qed

text \<open>
  The phase a frame ends with, from the phase the pellet block leaves: a collision of a
  roaming ghost or of the ultimate ghost makes it \<open>LOST\<close>, and the queued function makes
  it \<open>WON\<close> after that if the last counted pellet was eaten.
\<close>

lemma draw_phase:
  assumes "draw M T rnd urnd st = Inr st'" and "pacman st = Some p0"
  obtains st2 queued where
    "eatPellet (updatePosition T (maze st) p0) (st\<lparr>pacman := Some (updatePosition T (maze st) p0)\<rparr>) =
       Inr (st2, queued)"
    "pelletsLeft st' = (if queued then pelletsLeft st - 1 else pelletsLeft st)"
    "maze st' = maze st2" "score st' = score st2"
    "gameState st' =
       (if queued \<and> pelletsLeft st - 1 = 0 then WON
        else if (\<exists>g \<in> set (ghosts st'). collides T (updatePosition T (maze st) p0) g) \<or> caught T st'
        then LOST else gameState st2)"
    "1500 \<le> score st' \<longrightarrow> (\<forall>g \<in> set (ghosts st'). isMerging g)"
proof -
  let ?pac = "updatePosition T (maze st) p0"
  from assms obtain st2 queued mid fin where
    e: "eatPellet ?pac (st\<lparr>pacman := Some ?pac\<rparr>) = Inr (st2, queued)"
    and f: "fin = ultimateStage T urnd ?pac mid"
    and s: "st' = (if queued then pelletsUpdater fin else fin)"
    and gm: "ghosts mid = ghosts st'" and mz: "maze mid = maze st2"
    and sc: "score mid = score st2"
    and pl: "pelletsLeft mid = pelletsLeft st" and ug: "ultimateGhost mid = ultimateGhost st"
    and ph: "gameState mid =
       (if \<exists>g \<in> set (ghosts st'). collides T ?pac g then LOST else gameState st2)"
    and gs: "ghosts st' = fst (forEachGhost M T (maze st2) (score st2) ?pac rnd 0 (ghosts st) (gameState st2))"
    by (rule draw_stages)
  have pm: "pacman st' = Some ?pac" using assms by (rule draw_pacman)
  have fr: "pacman fin = pacman st'" "ghosts fin = ghosts st'" "ultimateGhost fin = ultimateGhost st'"
    "maze fin = maze st'" "score fin = score st'"
    by (simp_all add: s pelletsUpdater_frame)
  have c: "caught T st' = caught T fin" unfolding caught_def fr ..
  have plf: "pelletsLeft fin = pelletsLeft st" using f pl by (simp add: ultimateStage_frame)
  have pf: "pacman fin = Some ?pac" using pm fr(1) by simp
  have gf: "ghosts fin = ghosts mid" using f by (simp add: ultimateStage_frame)
  have cf: "gameState fin = (if caught T fin then LOST else gameState mid)"
  proof (cases "ghosts mid \<noteq> [] \<and> list_all merged (ghosts mid)")
    case True
    let ?ug = "updateChasingAI T (maze mid) ?pac urnd
                 (case ultimateGhost mid of None \<Rightarrow> newUltimateGhost T 9 9 | Some u \<Rightarrow> u)"
    have u: "ultimateGhost fin = Some ?ug"
      using True by (simp add: f ultimateStage_def Let_def)
    have "gameState fin = (if hypot (xpos ?pac - xpos ?ug) (ypos ?pac - ypos ?ug) < 5 * T / 6
                           then LOST else gameState mid)"
      using True by (simp add: f ultimateStage_def Let_def)
    moreover have "caught T fin = (hypot (xpos ?pac - xpos ?ug) (ypos ?pac - ypos ?ug) < 5 * T / 6)"
      using True by (simp add: caught_def gf pf u)
    ultimately show ?thesis by simp
  next
    case False
    then have "fin = mid" by (auto simp: f ultimateStage_def Let_def)
    moreover have "\<not> caught T fin" using False by (auto simp: caught_def gf)
    ultimately show ?thesis by simp
  qed
  show ?thesis
  proof (rule that [OF e])
    show "pelletsLeft st' = (if queued then pelletsLeft st - 1 else pelletsLeft st)"
      by (simp add: s pelletsUpdater_frame plf)
    show "maze st' = maze st2" using fr(4) f mz by (simp add: ultimateStage_frame)
    show sc': "score st' = score st2" using fr(5) f sc by (simp add: ultimateStage_frame)
    show "1500 \<le> score st' \<longrightarrow> (\<forall>g \<in> set (ghosts st'). isMerging g)"
      unfolding sc' gs using forEachGhost_merging by blast
    show "gameState st' =
       (if queued \<and> pelletsLeft st - 1 = 0 then WON
        else if (\<exists>g \<in> set (ghosts st'). collides T ?pac g) \<or> caught T st'
        then LOST else gameState st2)"
    proof -
      have "gameState st' = (if queued \<and> pelletsLeft st - 1 = 0 then WON else gameState fin)"
        by (simp add: s pelletsUpdater_phase plf)
      then show ?thesis by (simp add: cf c ph)
    qed
  qed
qed

section \<open>C1: the merge trigger and the convergence step\<close>

lemma hypot_scale: "a \<noteq> 0 \<Longrightarrow> hypot a b = \<bar>a\<bar> * sqrt (1 + (b / a)\<^sup>2)"
proof -
  assume a: "a \<noteq> 0"
  then have "a\<^sup>2 + b\<^sup>2 = a\<^sup>2 * (1 + (b / a)\<^sup>2)"
    by (simp add: field_simps power2_eq_square)
  then show ?thesis
    by (simp add: hypot_def real_sqrt_mult)
qed

lemma hypot_eq_zero_iff: "hypot a b = 0 \<longleftrightarrow> a = 0 \<and> b = 0"
  by (simp add: hypot_def sum_power2_eq_zero_iff)

lemma hypot_nonneg: "0 \<le> hypot a b"
  by (simp add: hypot_def)

lemma cos_atan2: "a \<noteq> 0 \<or> b \<noteq> 0 \<Longrightarrow> cos (atan2 b a) = a / hypot a b"
proof -
  assume nz: "a \<noteq> 0 \<or> b \<noteq> 0"
  consider "0 < a" | "a < 0" | "a = 0" "b \<noteq> 0" using nz by fastforce
  then show ?thesis
  proof cases
    case 1
    then show ?thesis by (simp add: atan2_def cos_arctan hypot_scale)
  next
    case 2
    then have "cos (atan2 b a) = - cos (arctan (b / a))"
      by (auto simp: atan2_def)
    with 2 show ?thesis by (simp add: cos_arctan hypot_scale)
  next
    case 3
    then show ?thesis by (auto simp: atan2_def)
  qed
qed

lemma sin_atan2: "a \<noteq> 0 \<or> b \<noteq> 0 \<Longrightarrow> sin (atan2 b a) = b / hypot a b"
proof -
  assume nz: "a \<noteq> 0 \<or> b \<noteq> 0"
  consider "0 < a" | "a < 0" | "a = 0" "0 < b" | "a = 0" "b < 0" using nz by fastforce
  then show ?thesis
  proof cases
    case 1
    then show ?thesis by (simp add: atan2_def sin_arctan hypot_scale)
  next
    case 2
    then have "sin (atan2 b a) = - sin (arctan (b / a))"
      by (auto simp: atan2_def)
    with 2 show ?thesis by (simp add: sin_arctan hypot_scale)
  next
    case 3
    then show ?thesis by (simp add: atan2_def hypot_def)
  next
    case 4
    then show ?thesis by (simp add: atan2_def hypot_def)
  qed
qed

lemma step_toward:
  "(xpos g + cos (atan2 (9 * T + T / 2 - ypos g) (9 * T + T / 2 - xpos g)) * 3,
    ypos g + sin (atan2 (9 * T + T / 2 - ypos g) (9 * T + T / 2 - xpos g)) * 3) =
   towardCenter T (xpos g, ypos g)"
proof (cases "hypot (9 * T + T / 2 - xpos g) (9 * T + T / 2 - ypos g) = 0")
  case True
  then have "9 * T + T / 2 - xpos g = 0" "9 * T + T / 2 - ypos g = 0"
    by (simp_all add: hypot_eq_zero_iff)
  then show ?thesis by (simp add: towardCenter_def atan2_def hypot_def Let_def)
next
  case False
  then have "9 * T + T / 2 - xpos g \<noteq> 0 \<or> 9 * T + T / 2 - ypos g \<noteq> 0"
    by (simp add: hypot_eq_zero_iff)
  from cos_atan2 [OF this] sin_atan2 [OF this] False show ?thesis
    by (simp add: towardCenter_def Let_def)
qed

lemma scaled_norm:
  fixes a b d :: real
  assumes "0 < d" and "d\<^sup>2 = a\<^sup>2 + b\<^sup>2"
  shows "(3 * a / d)\<^sup>2 + (3 * b / d)\<^sup>2 = 9"
proof -
  have 1: "(3 * a / d)\<^sup>2 = 9 * a\<^sup>2 / d\<^sup>2" and 2: "(3 * b / d)\<^sup>2 = 9 * b\<^sup>2 / d\<^sup>2"
    by (simp_all add: power_divide power_mult_distrib)
  have "9 * a\<^sup>2 / d\<^sup>2 + 9 * b\<^sup>2 / d\<^sup>2 = (9 * a\<^sup>2 + 9 * b\<^sup>2) / d\<^sup>2"
    by (simp add: add_divide_distrib)
  also have "9 * a\<^sup>2 + 9 * b\<^sup>2 = 9 * d\<^sup>2" using assms(2) by simp
  also have "9 * d\<^sup>2 / d\<^sup>2 = 9" using assms(1) by simp
  finally show ?thesis using 1 2 by simp
qed

lemma hypot_three: "a\<^sup>2 + b\<^sup>2 = 9 \<Longrightarrow> hypot a b = 3"
proof -
  assume "a\<^sup>2 + b\<^sup>2 = 9"
  then have "sqrt (a\<^sup>2 + b\<^sup>2) = sqrt (3\<^sup>2)" by simp
  then show ?thesis unfolding hypot_def by (simp only: real_sqrt_abs abs_numeral)
qed

lemma towardCenter_length:
  "hypot (fst (towardCenter T (px, py)) - px) (snd (towardCenter T (px, py)) - py) = 3"
proof (cases "hypot (9 * T + T / 2 - px) (9 * T + T / 2 - py) = 0")
  case True
  then show ?thesis by (simp add: towardCenter_def Let_def)
next
  case False
  define a where "a = 9 * T + T / 2 - px"
  define b where "b = 9 * T + T / 2 - py"
  define d where "d = hypot a b"
  have d: "0 < d" using False hypot_nonneg [of a b] by (simp add: a_def b_def d_def)
  have "d\<^sup>2 = a\<^sup>2 + b\<^sup>2" by (simp add: d_def hypot_def)
  with d have "(3 * a / d)\<^sup>2 + (3 * b / d)\<^sup>2 = 9" by (rule scaled_norm)
  then have "hypot (3 * a / d) (3 * b / d) = 3" by (rule hypot_three)
  moreover have "towardCenter T (px, py) = (px + 3 * a / d, py + 3 * b / d)"
    using False by (simp add: towardCenter_def Let_def a_def b_def d_def)
  ultimately show ?thesis by simp
qed

text \<open>With exact arithmetic the amended step is the step of the specification.\<close>

lemma advances_exact: "advances exactMath T g g' = converges T g g'"
proof -
  define c where "c = 9 * T + T / 2"
  have "(xpos g + cos (atan2 (c - ypos g) (c - xpos g)) * 3,
         ypos g + sin (atan2 (c - ypos g) (c - xpos g)) * 3) = towardCenter T (xpos g, ypos g)"
    unfolding c_def by (rule step_toward)
  then have q: "xpos g + cos (atan2 (c - ypos g) (c - xpos g)) * 3 = fst (towardCenter T (xpos g, ypos g))"
    "ypos g + sin (atan2 (c - ypos g) (c - xpos g)) * 3 = snd (towardCenter T (xpos g, ypos g))"
    by (metis fst_conv, metis snd_conv)
  have l: "hypot (fst (towardCenter T (xpos g, ypos g)) - xpos g)
             (snd (towardCenter T (xpos g, ypos g)) - ypos g) = 3"
    by (rule towardCenter_length)
  show ?thesis
    unfolding advances_def converges_def exactMath_def Let_def
    by (fold c_def) (simp add: q l)
qed










section \<open>C2: the collision radius of the ultimate ghost\<close>

text \<open>
  C2 as stated fails. In \<open>chaseState\<close> all ghosts are merged and the ultimate ghost
  exists; after the frame the player is at (302, 304) and the ultimate ghost at
  (333, 304), 31 units apart, which is less than 1.2 tiles (38.4 units), and the phase is
  still \<open>PLAYING\<close>.
\<close>

theorem ultimate_threshold_counterexample:
  "(case draw exactMath 32 (\<lambda>i. (0, 0)) (0, 0) chaseState of
      Inl e \<Rightarrow> False
    | Inr st' \<Rightarrow>
        ghosts st' \<noteq> [] \<and> list_all merged (ghosts st') \<and>
        map_option xpos (pacman st') = Some 302 \<and> map_option ypos (pacman st') = Some 304 \<and>
        map_option xpos (ultimateGhost st') = Some 333 \<and> map_option ypos (ultimateGhost st') = Some 304 \<and>
        hypot (302 - 333) (304 - 304) < 1.2 * 32 \<and>
        gameState st' = PLAYING)"
  by (simp add: draw_def chaseState_def updatePosition_def atCenter_def snapToCenter_def canMove_def
      nextCell_def cellAt_def moveStep_def eatPellet_def ultimateStage_def updateChasingAI_def
      newUltimateGhost_def newGhost_def newEntity_def directions_def pick_def updateAI_def ghostTick_def
      distToPacman_def Let_def hypot_le_hypot_iff hypot_le_zero_iff)

text \<open>
  C2, amended. The test in \<open>draw\<close> is \<open>dist < TILE_SIZE / 1.2\<close>, five sixths of a tile.
  In a frame that ends with a non-empty list of ghosts that are all merged, the ultimate
  ghost exists afterwards. If the frame has eaten the last counted pellet it ends \<open>WON\<close>.
  If it has not, it ends \<open>LOST\<close> if the player and the ultimate ghost are less than five
  sixths of a tile apart after their moves. And it ends \<open>LOST\<close> only then or if the phase
  was \<open>LOST\<close> before the frame.
\<close>

theorem ultimate_collision_result:
  assumes "draw M T rnd urnd st = Inr st'" and "pacman st = Some p0"
    and "ghosts st' \<noteq> []" and "list_all merged (ghosts st')"
  shows "\<exists>pac ug. pacman st' = Some pac \<and> ultimateGhost st' = Some ug \<and>
           (lastPelletEaten st st' \<longrightarrow> gameState st' = WON) \<and>
           (hypot (xpos pac - xpos ug) (ypos pac - ypos ug) < 5 * T / 6 \<and>
            \<not> lastPelletEaten st st' \<longrightarrow> gameState st' = LOST) \<and>
           (gameState st' = LOST \<longrightarrow>
              hypot (xpos pac - xpos ug) (ypos pac - ypos ug) < 5 * T / 6 \<or> gameState st = LOST)"
proof -
  let ?pac = "updatePosition T (maze st) p0"
  from assms(1,2) obtain st2 queued where
    e: "eatPellet ?pac (st\<lparr>pacman := Some ?pac\<rparr>) = Inr (st2, queued)"
    and pl: "pelletsLeft st' = (if queued then pelletsLeft st - 1 else pelletsLeft st)"
    and ph: "gameState st' =
       (if queued \<and> pelletsLeft st - 1 = 0 then WON
        else if (\<exists>g \<in> set (ghosts st'). collides T ?pac g) \<or> caught T st'
        then LOST else gameState st2)"
    by (rule draw_phase)
  from assms(1,2) obtain s2 q2 mid fin where
    f: "fin = ultimateStage T urnd ?pac mid"
    and s: "st' = (if q2 then pelletsUpdater fin else fin)"
    and gm: "ghosts mid = ghosts st'"
    by (rule draw_stages)
  have pm: "pacman st' = Some ?pac" using assms(1,2) by (rule draw_pacman)
  have "ultimateGhost fin \<noteq> None"
    using assms(3,4) gm by (simp add: f ultimateStage_def Let_def)
  then obtain ug where u: "ultimateGhost st' = Some ug"
    by (auto simp: s pelletsUpdater_frame)
  have nc: "\<not> (\<exists>g \<in> set (ghosts st'). collides T ?pac g)"
    using assms(4) by (auto simp: collides_def list_all_iff)
  have cg: "caught T st' \<longleftrightarrow> hypot (xpos ?pac - xpos ug) (ypos ?pac - ypos ug) < 5 * T / 6"
    using assms(3,4) by (simp add: caught_def pm u)
  have lp: "lastPelletEaten st st' \<longleftrightarrow> queued \<and> pelletsLeft st - 1 = 0"
    using pl by (auto simp: lastPelletEaten_def)
  have "gameState st2 = LOST \<longrightarrow> gameState st = LOST"
    using eatPellet_phase [OF e] by auto
  with ph nc cg lp pm u show ?thesis by auto
qed

text \<open>
  In \<open>caughtState\<close> no pellet is eaten, the two end the frame 17 units apart, and the game
  is lost.
\<close>

theorem ultimate_collision_result_witness:
  "pacman caughtState = Some ((newEntity 32 9 9)\<lparr>direction := Some LEFT\<rparr>) \<and>
   \<not> lastPelletEaten caughtState (projr (draw exactMath 32 (\<lambda>i. (0, 0)) (0, 0) caughtState)) \<and>
   (case draw exactMath 32 (\<lambda>i. (0, 0)) (0, 0) caughtState of
      Inl e \<Rightarrow> False
    | Inr st' \<Rightarrow>
        ghosts st' \<noteq> [] \<and> list_all merged (ghosts st') \<and>
        map_option xpos (pacman st') = Some 302 \<and> map_option ypos (pacman st') = Some 304 \<and>
        map_option xpos (ultimateGhost st') = Some 319 \<and> map_option ypos (ultimateGhost st') = Some 304 \<and>
        gameState st' = LOST)"
proof -
  let ?p0 = "(newEntity 32 9 9)\<lparr>direction := Some LEFT\<rparr>"
  let ?d = "draw exactMath 32 (\<lambda>i. (0, 0)) (0, 0) caughtState"
  have h1: "pacman caughtState = Some ?p0" by (simp add: caughtState_def chaseState_def)
  have d: "?d = Inr (projr ?d)"
    by (simp add: eval_defs caughtState_def chaseState_def)
  have h3: "ghosts (projr ?d) \<noteq> []" and h4: "list_all merged (ghosts (projr ?d))"
    by (simp_all add: eval_defs caughtState_def chaseState_def)
  have v: "map_option xpos (pacman (projr ?d)) = Some 302 \<and> map_option ypos (pacman (projr ?d)) = Some 304 \<and>
        map_option xpos (ultimateGhost (projr ?d)) = Some 319 \<and>
        map_option ypos (ultimateGhost (projr ?d)) = Some 304"
    by (simp add: eval_defs caughtState_def chaseState_def)
  have n: "\<not> lastPelletEaten caughtState (projr ?d)"
    by (simp add: lastPelletEaten_def caughtState_def chaseState_def)
  from ultimate_collision_result [OF d h1 h3 h4] obtain pac ug where
    p: "pacman (projr ?d) = Some pac" and u: "ultimateGhost (projr ?d) = Some ug"
    and l: "hypot (xpos pac - xpos ug) (ypos pac - ypos ug) < 5 * 32 / 6 \<and>
            \<not> lastPelletEaten caughtState (projr ?d) \<longrightarrow> gameState (projr ?d) = LOST"
    by blast
  from v p u have "xpos pac = 302" "ypos pac = 304" "xpos ug = 319" "ypos ug = 304" by simp_all
  with l n have "gameState (projr ?d) = LOST" by simp
  with v h3 h4 h1 n show ?thesis by (subst d) simp
qed

section \<open>C3: a layout without a start cell for the player\<close>

lemma scanRow_pacmanStart:
  "PACMAN_START \<notin> set ts \<Longrightarrow> fst (snd (scanRow cy cx ts acc)) = fst (snd acc)"
  by (induction ts arbitrary: cx acc) (auto simp: split_def)

lemma scanMap_pacmanStart:
  "\<forall>row \<in> set rows. PACMAN_START \<notin> set row \<Longrightarrow> fst (snd (scanMap cy rows acc)) = fst (snd acc)"
  by (induction rows arbitrary: cy acc) (auto simp: scanRow_pacmanStart)

text \<open>
  C3 as stated fails. The layout \<open>[[PELLET]]\<close> has no \<open>PACMAN_START\<close> cell, and
  \<open>initGame\<close> returns a state in phase \<open>PLAYING\<close> whose player stands on the default
  cell (9, 15).
\<close>

theorem initGame_no_start_counterexample:
  "PACMAN_START \<notin> set (concat [[PELLET]]) \<and>
   gameState (initGame 32 [] [[PELLET]]) = PLAYING \<and>
   pacman (initGame 32 [] [[PELLET]]) =
     Some \<lparr>xpos = 304, ypos = 496, gridX = 9, gridY = 15,
           direction = Some LEFT, nextDirection = Some LEFT, speed = 2\<rparr>"
  by (simp add: initGame_def newEntity_def)

text \<open>
  C3, amended. \<open>initGame\<close> initialises \<open>pacmanStart\<close> with \<open>{x: 9, y: 15}\<close> and has no
  failure path: for a layout without a \<open>PACMAN_START\<close> cell it places the player at the
  centre of cell (9, 15), heading left, with score 0, and sets the phase to \<open>PLAYING\<close>.
\<close>

theorem initGame_default_start:
  assumes "PACMAN_START \<notin> set (concat MAP)"
  shows "pacman (initGame T cs MAP) =
           Some ((newEntity T 9 15)\<lparr>direction := Some LEFT, nextDirection := Some LEFT\<rparr>) \<and>
         gameState (initGame T cs MAP) = PLAYING \<and> score (initGame T cs MAP) = 0"
proof -
  have "fst (snd (scanMap 0 MAP (0, (9, 15), []))) = (9, 15)"
    using assms by (simp add: scanMap_pacmanStart)
  then show ?thesis
    by (auto simp: initGame_def split: prod.splits)
qed

theorem initGame_default_start_witness:
  "PACMAN_START \<notin> set (concat [[WALL, PELLET], [GHOST_START, EMPTY]]) \<and>
   pacman (initGame 32 [] [[WALL, PELLET], [GHOST_START, EMPTY]]) =
     Some ((newEntity 32 9 15)\<lparr>direction := Some LEFT, nextDirection := Some LEFT\<rparr>) \<and>
   gameState (initGame 32 [] [[WALL, PELLET], [GHOST_START, EMPTY]]) = PLAYING"
proof -
  have h: "PACMAN_START \<notin> set (concat [[WALL, PELLET], [GHOST_START, EMPTY]])" by simp
  show ?thesis using h initGame_default_start [OF h, of 32 "[]"] by simp
qed

section \<open>C4: the grid cell follows the position\<close>

lemma floor_center: "0 < (T::real) \<Longrightarrow> \<lfloor>(of_int c * T + T / 2) / T\<rfloor> = c"
proof -
  assume "0 < T"
  then have "(of_int c * T + T / 2) / T = of_int c + 1 / 2" by (simp add: field_simps)
  then show ?thesis by simp
qed

lemma gridSync_snapToCenter: "0 < T \<Longrightarrow> gridSync T (snapToCenter T e)"
  by (simp add: gridSync_def snapToCenter_def floor_center)

lemma gridSync_moveStep: "gridSync T e \<Longrightarrow> gridSync T (moveStep T e)"
  by (simp add: gridSync_def moveStep_def Let_def split: option.splits)

lemma gridSync_updatePosition:
  assumes "0 < T" and "gridSync T e"
  shows "gridSync T (updatePosition T mz e)"
proof -
  let ?e0 = "snapToCenter T e"
  have s: "gridSync T ?e0" using assms(1) by (rule gridSync_snapToCenter)
  have a: "gridSync T (?e0\<lparr>direction := nextDirection ?e0, nextDirection := None\<rparr>)"
    using s by (simp add: gridSync_def)
  have b: "gridSync T (?e0\<lparr>direction := None\<rparr>)"
    using s by (simp add: gridSync_def)
  show ?thesis
    unfolding updatePosition_def Let_def
    using a b s assms(2) by (auto intro!: gridSync_moveStep)
qed

lemma abs_le_hypot: "\<bar>a\<bar> \<le> hypot a b" "\<bar>b\<bar> \<le> hypot a b"
  by (simp_all add: hypot_def real_le_rsqrt)

lemma floor_near_center:
  assumes "10 \<le> (T::real)" and "\<bar>v - (9 * T + T / 2)\<bar> < 5"
  shows "\<lfloor>v / T\<rfloor> = \<lfloor>(9 * T + T / 2) / T\<rfloor>"
proof -
  have T: "0 < T" using assms(1) by simp
  have "9 * T < v" "v < 10 * T" using assms by (auto simp: abs_less_iff)
  then have "9 \<le> v / T" "v / T < 9 + 1" using T by (simp_all add: field_simps)
  then have "\<lfloor>v / T\<rfloor> = 9" by linarith
  moreover have "\<lfloor>(of_int 9 * T + T / 2) / T\<rfloor> = 9" using T by (rule floor_center)
  ultimately show ?thesis by simp
qed

lemma boundedMath_exact: "boundedMath exactMath"
  by (simp add: boundedMath_def exactMath_def abs_le_hypot)

lemma gridSync_mergeMove:
  assumes "10 \<le> T" and "boundedMath M"
  shows "gridSync T (mergeMove M T g)"
proof -
  let ?tx = "9 * T + T / 2"
  let ?angle = "mathAtan2 M (roundDouble M (?tx - ypos g)) (roundDouble M (?tx - xpos g))"
  let ?nx = "roundDouble M (xpos g + roundDouble M (mathCos M ?angle * speed g))"
  let ?ny = "roundDouble M (ypos g + roundDouble M (mathSin M ?angle * speed g))"
  let ?a = "roundDouble M (?nx - ?tx)" and ?b = "roundDouble M (?ny - ?tx)"
  show ?thesis
  proof (cases "mathHypot M ?a ?b < 5")
    case True
    have "\<bar>?a\<bar> \<le> mathHypot M ?a ?b" "\<bar>?b\<bar> \<le> mathHypot M ?a ?b"
      using assms(2) by (simp_all add: boundedMath_def)
    with True have "\<bar>?a\<bar> < 5" "\<bar>?b\<bar> < 5" by linarith+
    then have "\<bar>?nx - ?tx\<bar> < 5" "\<bar>?ny - ?tx\<bar> < 5"
      using assms(2) by (simp_all add: boundedMath_def)
    then have "\<lfloor>?nx / T\<rfloor> = \<lfloor>?tx / T\<rfloor>" "\<lfloor>?ny / T\<rfloor> = \<lfloor>?tx / T\<rfloor>"
      using assms(1) by (simp_all add: floor_near_center)
    with True show ?thesis by (simp add: mergeMove_def Let_def gridSync_def)
  next
    case False
    then show ?thesis by (simp add: mergeMove_def Let_def gridSync_def)
  qed
qed

lemma gridSync_updateAI:
  assumes "10 \<le> T" and "boundedMath M" and "gridSync T g"
  shows "gridSync T (updateAI M T mz r g)"
proof -
  have T: "0 < T" using assms(1) by simp
  let ?g0 = "g\<lparr>speed := 2\<rparr>"
  let ?gc = "snapToCenter T ?g0"
  have s: "gridSync T ?gc" using T by (rule gridSync_snapToCenter)
  have p: "gridSync T (?gc\<lparr>direction := d\<rparr>)" for d
    using s by (simp add: gridSync_def)
  have g0: "gridSync T ?g0" using assms(3) by (simp add: gridSync_def)
  show ?thesis
  proof (cases "merged g")
    case True
    then show ?thesis using assms(3) by (simp add: updateAI_def)
  next
    case False
    show ?thesis
    proof (cases "isMerging g")
      case True
      with False show ?thesis
        using gridSync_mergeMove [OF assms(1,2)] by (simp add: updateAI_def Let_def)
    next
      case m: False
      with False show ?thesis
        unfolding updateAI_def Let_def
        using s p g0 by (auto intro!: gridSync_moveStep)
    qed
  qed
qed

lemma gridSync_updateChasingAI:
  assumes "0 < T" and "gridSync T g"
  shows "gridSync T (updateChasingAI T mz pac r g)"
proof -
  let ?gc = "snapToCenter T g"
  have s: "gridSync T ?gc" using assms(1) by (rule gridSync_snapToCenter)
  have p: "gridSync T (?gc\<lparr>direction := d\<rparr>)" for d
    using s by (simp add: gridSync_def)
  show ?thesis
    unfolding updateChasingAI_def Let_def
    using s p assms(2) by (auto intro!: gridSync_moveStep)
qed

text \<open>
  C4. If the grid cell of an entity is the floor of its position over the tile size
  before \<open>updatePosition\<close>, \<open>updateAI\<close> or \<open>updateChasingAI\<close>, it is so afterwards, for
  every maze and every random input. The tile size is positive; for \<open>updateAI\<close>, whose
  merge branch snaps to the centre of cell (9, 9) from up to 5 units away without
  recomputing the cell, it is at least 10. The arithmetic of the merge branch is exact, or
  any other arithmetic that is \<open>boundedMath\<close>.
\<close>

theorem grid_cell_in_sync:
  "(0 < T \<and> gridSync T e \<longrightarrow> gridSync T (updatePosition T mz e)) \<and>
   (10 \<le> T \<and> gridSync T g \<longrightarrow> gridSync T (updateAI exactMath T mz r g)) \<and>
   (10 \<le> T \<and> boundedMath M \<and> gridSync T g \<longrightarrow> gridSync T (updateAI M T mz r g)) \<and>
   (0 < T \<and> gridSync T u \<longrightarrow> gridSync T (updateChasingAI T mz pac r' u))"
  by (simp add: gridSync_updatePosition gridSync_updateAI gridSync_updateChasingAI boundedMath_exact)

text \<open>The player, a roaming ghost, a merging ghost and the ultimate ghost at tile size 32.\<close>

theorem grid_cell_in_sync_witness:
  "(0::real) < 32 \<and> (10::real) \<le> 32 \<and> boundedMath exactMath \<and>
   gridSync 32 ((newEntity 32 9 9)\<lparr>direction := Some LEFT\<rparr>) \<and>
   gridSync 32 (updatePosition 32 (replicate 11 (replicate 12 EMPTY))
                  ((newEntity 32 9 9)\<lparr>direction := Some LEFT\<rparr>)) \<and>
   gridSync 32 roamingGhost \<and>
   gridSync 32 (updateAI exactMath 32 (replicate 11 (replicate 12 EMPTY)) (0, 0) roamingGhost) \<and>
   gridSync 32 mergingGhost \<and>
   gridSync 32 (updateAI exactMath 32 (replicate 11 (replicate 12 EMPTY)) (0, 0) mergingGhost) \<and>
   xpos (updateAI exactMath 32 (replicate 11 (replicate 12 EMPTY)) (0, 0) mergingGhost) = 304 \<and>
   merged (updateAI exactMath 32 (replicate 11 (replicate 12 EMPTY)) (0, 0) mergingGhost) \<and>
   gridSync 32 (newUltimateGhost 32 9 9) \<and>
   gridSync 32 (updateChasingAI 32 (replicate 11 (replicate 12 EMPTY))
                  ((newEntity 32 9 9)\<lparr>direction := Some LEFT\<rparr>) (0, 0) (newUltimateGhost 32 9 9))"
proof -
  let ?mz = "replicate 11 (replicate 12 EMPTY)"
  let ?e = "(newEntity 32 9 9)\<lparr>direction := Some LEFT\<rparr>"
  have e: "gridSync 32 ?e" by (simp add: gridSync_def newEntity_def)
  have g: "gridSync 32 roamingGhost" by (simp add: gridSync_def roamingGhost_def newGhost_def)
  have m: "gridSync 32 mergingGhost" by (simp add: gridSync_def mergingGhost_def newGhost_def)
  have u: "gridSync 32 (newUltimateGhost 32 9 9)"
    by (simp add: gridSync_def newUltimateGhost_def newGhost_def)
  have v: "xpos (updateAI exactMath 32 ?mz (0, 0) mergingGhost) = 304 \<and>
           merged (updateAI exactMath 32 ?mz (0, 0) mergingGhost)"
    by (simp add: updateAI_def mergeMove_def mergingGhost_def newGhost_def exactMath_def atan2_def Let_def)
  from e g m u v boundedMath_exact
    grid_cell_in_sync [where T = 32 and e = ?e and mz = ?mz and g = roamingGhost and r = "(0, 0)"
      and M = exactMath and u = "newUltimateGhost 32 9 9" and pac = ?e and r' = "(0, 0)"]
    grid_cell_in_sync [where T = 32 and e = ?e and mz = ?mz and g = mergingGhost and r = "(0, 0)"
      and M = exactMath and u = "newUltimateGhost 32 9 9" and pac = ?e and r' = "(0, 0)"]
  show ?thesis by simp
qed

text \<open>With tiles smaller than 10 units the snap of a merging ghost can leave its cell behind.\<close>

lemma mergeMove_small_tile:
  "gridSync 4 ((newGhost 4 7 9 None)\<lparr>xpos := 30.5, speed := 3, isMerging := True\<rparr>) \<and>
   \<not> gridSync 4 (mergeMove exactMath 4 ((newGhost 4 7 9 None)\<lparr>xpos := 30.5, speed := 3, isMerging := True\<rparr>))"
  by (simp add: gridSync_def mergeMove_def newGhost_def exactMath_def atan2_def Let_def)

section \<open>C5: roaming ghosts do not reverse\<close>

lemma Direction_cases: "d = UP \<or> d = DOWN \<or> d = LEFT \<or> d = RIGHT"
  by (cases d) simp_all

lemma sole_direction:
  "(length (filter P directions) = 1 \<and> P d) = (P d \<and> (\<forall>d'. P d' \<longrightarrow> d' = d))"
proof
  assume a: "length (filter P directions) = 1 \<and> P d"
  have "\<forall>d'. P d' \<longrightarrow> d' = d"
  proof (intro allI impI)
    fix d' assume "P d'"
    with a Direction_cases [of d] Direction_cases [of d'] show "d' = d"
      by (auto simp: directions_def split: if_splits)
  qed
  with a show "P d \<and> (\<forall>d'. P d' \<longrightarrow> d' = d)" by simp
next
  assume a: "P d \<and> (\<forall>d'. P d' \<longrightarrow> d' = d)"
  then have "\<And>d'. P d' = (d' = d)" by auto
  then have "length (filter P directions) = 1"
    using Direction_cases [of d] by (auto simp: directions_def)
  with a show "length (filter P directions) = 1 \<and> P d" by simp
qed

lemma available_iff:
  "d \<in> set (available g mz) \<longleftrightarrow>
     canMove g (Some d) mz \<and>
     (\<not> isReverse (direction g) d \<or> (\<forall>d'. canMove g (Some d') mz \<longrightarrow> d' = d))"
proof -
  have m: "d \<in> set directions" using Direction_cases [of d] by (auto simp: directions_def)
  have "d \<in> set (available g mz) \<longleftrightarrow>
          canMove g (Some d) mz \<and>
          (\<not> isReverse (direction g) d \<or>
           length (filter (\<lambda>dir. canMove g (Some dir) mz) directions) = 1)"
    using m by (simp add: available_def)
  also have "\<dots> \<longleftrightarrow> canMove g (Some d) mz \<and>
     (\<not> isReverse (direction g) d \<or> (\<forall>d'. canMove g (Some d') mz \<longrightarrow> d' = d))"
    using sole_direction [of "\<lambda>dir. canMove g (Some dir) mz" d] by blast
  finally show ?thesis .
qed

lemma canMove_cell:
  "gridX e' = gridX e \<Longrightarrow> gridY e' = gridY e \<Longrightarrow> canMove e' dir mz = canMove e dir mz"
  by (cases dir) (simp_all add: canMove_def)

lemma available_cell:
  "gridX e' = gridX e \<Longrightarrow> gridY e' = gridY e \<Longrightarrow> direction e' = direction e \<Longrightarrow>
   available e' mz = available e mz"
  by (simp add: available_def canMove_cell [of e' e])

lemma cellAt_mem: "cellAt xs i = Some v \<Longrightarrow> v \<in> set xs"
proof -
  assume a: "cellAt xs i = Some v"
  then have "0 \<le> i" "i < int (length xs)" "v = xs ! nat i"
    by (auto simp: cellAt_def split: if_splits)
  then have "nat i < length xs" "v = xs ! nat i" by simp_all
  then show ?thesis by simp
qed

lemma pick_mem: "pick xs r = Some v \<Longrightarrow> v \<in> set xs"
  unfolding pick_def by (rule cellAt_mem)

lemma direction_moveStep: "direction (moveStep T e) = direction e"
  by (simp add: moveStep_def Let_def split: option.splits)

text \<open>The direction a roaming ghost leaves \<open>updateAI\<close> with: the old one, or a candidate.\<close>

lemma updateAI_roaming_direction:
  assumes "\<not> merged g" and "\<not> isMerging g"
  shows "direction (updateAI M T mz r g) = direction g \<or>
         direction (updateAI M T mz r g) = pick (available g mz) (snd r)"
proof -
  let ?g0 = "g\<lparr>speed := 2\<rparr>"
  have av: "available (snapToCenter T ?g0) mz = available g mz"
    by (rule available_cell) (simp_all add: snapToCenter_def)
  show ?thesis
    using assms av by (simp add: updateAI_def Let_def direction_moveStep snapToCenter_def)
qed

text \<open>
  C5. A direction is in the candidate list \<open>available\<close> iff \<open>canMove\<close> allows it and it
  is not the reverse of the current direction or it is the only direction \<open>canMove\<close>
  allows. A roaming ghost (neither merged nor merging) that leaves \<open>updateAI\<close> with the
  reverse of the direction it entered with stood in a dead end: that reverse is legal and
  no other direction is.
\<close>

theorem ghost_no_reversal:
  "(d \<in> set (available g mz) \<longleftrightarrow>
      canMove g (Some d) mz \<and>
      (\<not> isReverse (direction g) d \<or> (\<forall>d'. canMove g (Some d') mz \<longrightarrow> d' = d))) \<and>
   (\<not> merged g \<and> \<not> isMerging g \<and> direction (updateAI M T mz r g) = Some d1 \<and>
    isReverse (direction g) d1 \<longrightarrow>
      canMove g (Some d1) mz \<and> (\<forall>d'. canMove g (Some d') mz \<longrightarrow> d' = d1))"
proof (intro conjI impI)
  show "d \<in> set (available g mz) \<longleftrightarrow>
      canMove g (Some d) mz \<and>
      (\<not> isReverse (direction g) d \<or> (\<forall>d'. canMove g (Some d') mz \<longrightarrow> d' = d))"
    by (rule available_iff)
next
  assume a: "\<not> merged g \<and> \<not> isMerging g \<and> direction (updateAI M T mz r g) = Some d1 \<and>
    isReverse (direction g) d1"
  then have "direction g \<noteq> Some d1" by (auto simp: isReverse_def)
  with a updateAI_roaming_direction [of g M T mz r]
  have "pick (available g mz) (snd r) = Some d1" by auto
  then have "d1 \<in> set (available g mz)" by (rule pick_mem)
  with a show "canMove g (Some d1) mz" "\<forall>d'. canMove g (Some d') mz \<longrightarrow> d' = d1"
    by (auto simp: available_iff)
qed

text \<open>The dead end: the ghost turns from \<open>RIGHT\<close> to \<open>LEFT\<close>, the only legal direction.\<close>

theorem ghost_no_reversal_witness:
  "\<not> merged deadEndGhost \<and> \<not> isMerging deadEndGhost \<and>
   direction deadEndGhost = Some RIGHT \<and>
   direction (updateAI exactMath 32 [[EMPTY, EMPTY, WALL]] (0, 0) deadEndGhost) = Some LEFT \<and>
   isReverse (direction deadEndGhost) LEFT \<and>
   filter (\<lambda>d. canMove deadEndGhost (Some d) [[EMPTY, EMPTY, WALL]]) directions = [LEFT] \<and>
   available deadEndGhost [[EMPTY, EMPTY, WALL]] = [LEFT]"
  using ghost_no_reversal [of LEFT deadEndGhost "[[EMPTY, EMPTY, WALL]]" exactMath 32 "(0, 0)" LEFT]
  by (simp add: deadEndGhost_def updateAI_def available_def isReverse_def eval_defs)

section \<open>C6: eating a pellet\<close>

text \<open>
  C6 as stated fails. In \<open>winCaughtState\<close> the player moves onto a pellet at score 1790,
  so the new score is 1800 and the block calls \<open>setGameState('WON')\<close>; in the same frame
  the ultimate ghost ends 17 units from the player and \<open>setGameState('LOST')\<close> follows.
  The frame ends with score 1800, 29 pellets left, and the phase \<open>LOST\<close>.
\<close>

theorem pellet_win_overridden_counterexample:
  "pacman winCaughtState = Some ((newEntity 32 9 9)\<lparr>direction := Some LEFT\<rparr>) \<and>
   cellAt (maze winCaughtState ! 9) 9 = Some PELLET \<and>
   score winCaughtState = 1790 \<and> pelletsLeft winCaughtState = 30 \<and>
   (case draw exactMath 32 (\<lambda>i. (0, 0)) (0, 0) winCaughtState of
      Inl e \<Rightarrow> False
    | Inr st' \<Rightarrow>
        map_option gridX (pacman st') = Some 9 \<and> map_option gridY (pacman st') = Some 9 \<and>
        cellAt (maze st' ! 9) 9 = Some EMPTY \<and>
        score st' = 1800 \<and> pelletsLeft st' = 29 \<and> gameState st' = LOST)"
  by (simp add: eval_defs winCaughtState_def caughtState_def chaseState_def)

text \<open>
  C6, amended. When the cell the player has moved into holds a pellet, the frame does not
  throw; when it ends exactly that cell is \<open>EMPTY\<close>, the score is 10 higher and the pellet
  count 1 lower. If the new count is 0 the phase is \<open>WON\<close>, whatever the score and
  whatever collides. Otherwise, if the new score is at least 1800, the phase is \<open>WON\<close>
  unless the ultimate ghost has caught the player in the same frame, and then it is
  \<open>LOST\<close>. Otherwise the phase is \<open>LOST\<close> if a roaming ghost collides or the ultimate
  ghost has caught the player, and else as before the frame.
\<close>

theorem pellet_pickup_result:
  assumes "pacman st = Some p0"
    and "pac = updatePosition T (maze st) p0"
    and "0 \<le> gridY pac" and "gridY pac < int (length (maze st))"
    and "cellAt (maze st ! nat (gridY pac)) (gridX pac) = Some PELLET"
  shows "\<exists>st'.
           draw M T rnd urnd st = Inr st' \<and>
           maze st' = (maze st)[nat (gridY pac) := (maze st ! nat (gridY pac))[nat (gridX pac) := EMPTY]] \<and>
           cellAt (maze st' ! nat (gridY pac)) (gridX pac) = Some EMPTY \<and>
           score st' = score st + 10 \<and>
           pelletsLeft st' = pelletsLeft st - 1 \<and>
           (pelletsLeft st' = 0 \<longrightarrow> gameState st' = WON) \<and>
           (pelletsLeft st' \<noteq> 0 \<and> 1800 \<le> score st' \<longrightarrow>
              gameState st' = (if caught T st' then LOST else WON)) \<and>
           (pelletsLeft st' \<noteq> 0 \<and> score st' < 1800 \<longrightarrow>
              gameState st' =
                (if (\<exists>g \<in> set (ghosts st'). collides T pac g) \<or> caught T st' then LOST
                 else gameState st))"
proof -
  let ?gy = "nat (gridY pac)" and ?gx = "nat (gridX pac)"
  let ?st1 = "st\<lparr>pacman := Some pac\<rparr>"
  from assms(5) have gx: "0 \<le> gridX pac" "?gx < length (maze st ! ?gy)"
    by (auto simp: cellAt_def split: if_splits)
  from assms(3,4) have gy: "?gy < length (maze st)" by simp
  obtain s2 where e: "eatPellet pac ?st1 = Inr (s2, True)"
    using assms(3,4,5) by (simp add: eatPellet_def Let_def)
  have m: "maze s2 = (maze st)[?gy := (maze st ! ?gy)[?gx := EMPTY]]"
    and sc: "score s2 = score st + 10"
    and w: "gameState s2 = (if 1800 \<le> score st + 10 then WON else gameState st)"
    using e assms(3,4,5) by (auto simp: eatPellet_def Let_def split: if_splits)
  obtain st' where d: "draw M T rnd urnd st = Inr st'"
    using e assms(1,2) by (simp add: draw_Some)
  from d assms(1) obtain st2 queued where
    e': "eatPellet (updatePosition T (maze st) p0) (st\<lparr>pacman := Some (updatePosition T (maze st) p0)\<rparr>) =
       Inr (st2, queued)"
    and pl: "pelletsLeft st' = (if queued then pelletsLeft st - 1 else pelletsLeft st)"
    and mz: "maze st' = maze st2" and sc': "score st' = score st2"
    and ph: "gameState st' =
       (if queued \<and> pelletsLeft st - 1 = 0 then WON
        else if (\<exists>g \<in> set (ghosts st'). collides T (updatePosition T (maze st) p0) g) \<or> caught T st'
        then LOST else gameState st2)"
    and mg: "1500 \<le> score st' \<longrightarrow> (\<forall>g \<in> set (ghosts st'). isMerging g)"
    by (rule draw_phase)
  from e e' assms(2) have q: "st2 = s2" "queued" by simp_all
  have c: "cellAt (maze st' ! ?gy) (gridX pac) = Some EMPTY"
    using gx gy by (simp add: mz q m cellAt_def)
  have p1: "pelletsLeft st' = pelletsLeft st - 1" using pl q by simp
  have a: "pelletsLeft st' = 0 \<longrightarrow> gameState st' = WON"
    using ph q p1 by simp
  have nc: "\<not> (\<exists>g \<in> set (ghosts st'). collides T pac g)" if "1800 \<le> score st'"
    using that mg by (auto simp: collides_def)
  have b: "pelletsLeft st' \<noteq> 0 \<and> 1800 \<le> score st' \<longrightarrow>
              gameState st' = (if caught T st' then LOST else WON)"
    using ph q p1 w sc sc' nc assms(2) by auto
  have l: "pelletsLeft st' \<noteq> 0 \<and> score st' < 1800 \<longrightarrow>
              gameState st' =
                (if (\<exists>g \<in> set (ghosts st'). collides T pac g) \<or> caught T st' then LOST
                 else gameState st)"
    using ph q p1 w sc sc' assms(2) by auto
  from d m mz q c sc sc' p1 a b l show ?thesis by auto
qed

text \<open>In \<open>pelletState\<close> the last counted pellet is eaten at score 30, and the game is won.\<close>

theorem pellet_pickup_result_witness:
  "pacman pelletState = Some ((newEntity 32 9 9)\<lparr>direction := Some LEFT\<rparr>) \<and>
   gridX (updatePosition 32 (maze pelletState) ((newEntity 32 9 9)\<lparr>direction := Some LEFT\<rparr>)) = 9 \<and>
   gridY (updatePosition 32 (maze pelletState) ((newEntity 32 9 9)\<lparr>direction := Some LEFT\<rparr>)) = 9 \<and>
   cellAt (maze pelletState ! 9) 9 = Some PELLET \<and>
   (case draw exactMath 32 (\<lambda>i. (0, 0)) (0, 0) pelletState of
      Inl e \<Rightarrow> False
    | Inr st' \<Rightarrow> cellAt (maze st' ! 9) 9 = Some EMPTY \<and> score st' = 30 \<and> pelletsLeft st' = 0 \<and>
                 gameState st' = WON)"
proof -
  let ?p0 = "(newEntity 32 9 9)\<lparr>direction := Some LEFT\<rparr>"
  let ?pac = "updatePosition 32 (maze pelletState) ?p0"
  have h1: "pacman pelletState = Some ?p0" by (simp add: pelletState_def)
  have gx: "gridX ?pac = 9" and gy: "gridY ?pac = 9"
    by (simp_all add: eval_defs pelletState_def)
  have h3: "0 \<le> gridY ?pac" and h4: "gridY ?pac < int (length (maze pelletState))"
    by (simp_all add: gy) (simp add: pelletState_def)
  have c: "cellAt (maze pelletState ! 9) 9 = Some PELLET"
    by (simp add: pelletState_def cellAt_def)
  have h5: "cellAt (maze pelletState ! nat (gridY ?pac)) (gridX ?pac) = Some PELLET"
    using c by (simp add: gx gy)
  have d: "(case draw exactMath 32 (\<lambda>i. (0, 0)) (0, 0) pelletState of
      Inl e \<Rightarrow> False
    | Inr st' \<Rightarrow> cellAt (maze st' ! 9) 9 = Some EMPTY \<and> score st' = 30 \<and> pelletsLeft st' = 0 \<and>
                 gameState st' = WON)"
    using pellet_pickup_result [OF h1 refl h3 h4 h5, of exactMath "\<lambda>i. (0, 0)" "(0, 0)"]
    by (simp add: eval_defs pelletState_def)
  from h1 gx gy c d show ?thesis by simp
qed

section \<open>C7: collisions with roaming ghosts\<close>

text \<open>
  C7 as stated fails. In \<open>lastPelletState\<close> the player moves onto the last counted pellet
  while a roaming ghost, not merged and not merging, ends the frame 14 units away, less
  than two thirds of the tile size 32. The loop calls \<open>setGameState('LOST')\<close>, but the
  function queued by the pellet block runs after it and calls \<open>setGameState('WON')\<close>: the
  frame ends with the phase \<open>WON\<close>.
\<close>

theorem ghost_collision_overridden_counterexample:
  "pacman lastPelletState = Some ((newEntity 32 9 9)\<lparr>direction := Some LEFT\<rparr>) \<and>
   pelletsLeft lastPelletState = 1 \<and> score lastPelletState = 0 \<and>
   (case draw exactMath 32 (\<lambda>i. (0, 0)) (0, 0) lastPelletState of
      Inl e \<Rightarrow> False
    | Inr st' \<Rightarrow>
        map_option xpos (pacman st') = Some 302 \<and> map_option ypos (pacman st') = Some 304 \<and>
        map xpos (ghosts st') = [288] \<and> map ypos (ghosts st') = [304] \<and>
        map isMerging (ghosts st') = [False] \<and> map merged (ghosts st') = [False] \<and>
        hypot (302 - 288) (304 - 304) < 2 * 32 / 3 \<and>
        pelletsLeft st' = 0 \<and> gameState st' = WON)"
  by (simp add: eval_defs lastPelletState_def roamState_def)

text \<open>
  C7, amended. For each ghost the body of the loop sets the phase to \<open>LOST\<close> exactly if,
  after its update, the ghost is not merged, is not merging and is closer to the player
  than two thirds of a tile (\<open>collides\<close>), and leaves the phase alone otherwise, so for
  merging and merged ghosts. For a whole frame: if it has eaten the last counted pellet it
  ends \<open>WON\<close>; if it has not and some ghost of the final state collides, it ends \<open>LOST\<close>;
  and when the ultimate ghost is not active, a frame that turns the phase into \<open>LOST\<close> has
  such a ghost.
\<close>

theorem ghost_collision_result:
  assumes "draw M T rnd urnd st = Inr st'" and "pacman st = Some p0"
  shows "snd (ghostTick M T mz sc pc r g ph) =
           (if collides T pc (fst (ghostTick M T mz sc pc r g ph)) then LOST else ph) \<and>
         (\<exists>pac. pacman st' = Some pac \<and>
            (lastPelletEaten st st' \<longrightarrow> gameState st' = WON) \<and>
            ((\<exists>g \<in> set (ghosts st'). collides T pac g) \<and> \<not> lastPelletEaten st st' \<longrightarrow>
               gameState st' = LOST) \<and>
            (gameState st' = LOST \<and> gameState st \<noteq> LOST \<and>
             \<not> (ghosts st' \<noteq> [] \<and> list_all merged (ghosts st')) \<longrightarrow>
               (\<exists>g \<in> set (ghosts st'). collides T pac g)))"
proof
  have "ghostTick M T mz sc pc r g ph =
          (fst (ghostTick M T mz sc pc r g ph), snd (ghostTick M T mz sc pc r g ph))"
    by simp
  from ghostTick_phase [OF this]
  show "snd (ghostTick M T mz sc pc r g ph) =
           (if collides T pc (fst (ghostTick M T mz sc pc r g ph)) then LOST else ph)" .
next
  let ?pac = "updatePosition T (maze st) p0"
  from assms obtain st2 queued where
    e: "eatPellet ?pac (st\<lparr>pacman := Some ?pac\<rparr>) = Inr (st2, queued)"
    and pl: "pelletsLeft st' = (if queued then pelletsLeft st - 1 else pelletsLeft st)"
    and ph: "gameState st' =
       (if queued \<and> pelletsLeft st - 1 = 0 then WON
        else if (\<exists>g \<in> set (ghosts st'). collides T ?pac g) \<or> caught T st'
        then LOST else gameState st2)"
    by (rule draw_phase)
  have pm: "pacman st' = Some ?pac" using assms by (rule draw_pacman)
  have lp: "lastPelletEaten st st' \<longleftrightarrow> queued \<and> pelletsLeft st - 1 = 0"
    using pl by (auto simp: lastPelletEaten_def)
  have a: "lastPelletEaten st st' \<longrightarrow> gameState st' = WON"
    using ph lp by simp
  have b: "(\<exists>g \<in> set (ghosts st'). collides T ?pac g) \<and> \<not> lastPelletEaten st st' \<longrightarrow>
               gameState st' = LOST"
    using ph lp by auto
  have c: "gameState st' = LOST \<and> gameState st \<noteq> LOST \<and>
           \<not> (ghosts st' \<noteq> [] \<and> list_all merged (ghosts st')) \<longrightarrow>
             (\<exists>g \<in> set (ghosts st'). collides T ?pac g)"
  proof (intro impI, elim conjE)
    assume l: "gameState st' = LOST" and n: "gameState st \<noteq> LOST"
      and m: "\<not> (ghosts st' \<noteq> [] \<and> list_all merged (ghosts st'))"
    from m have nc: "\<not> caught T st'" by (auto simp: caught_def)
    have "gameState st2 \<noteq> LOST" using eatPellet_phase [OF e] n by auto
    with l ph nc show "\<exists>g \<in> set (ghosts st'). collides T ?pac g"
      by (auto split: if_splits)
  qed
  from pm a b c show "\<exists>pac. pacman st' = Some pac \<and>
            (lastPelletEaten st st' \<longrightarrow> gameState st' = WON) \<and>
            ((\<exists>g \<in> set (ghosts st'). collides T pac g) \<and> \<not> lastPelletEaten st st' \<longrightarrow>
               gameState st' = LOST) \<and>
            (gameState st' = LOST \<and> gameState st \<noteq> LOST \<and>
             \<not> (ghosts st' \<noteq> [] \<and> list_all merged (ghosts st')) \<longrightarrow>
               (\<exists>g \<in> set (ghosts st'). collides T pac g))" by blast
qed

text \<open>
  In \<open>roamState\<close> no pellet is eaten, the ghost ends the frame 14 units from the player,
  and the game is lost.
\<close>

theorem ghost_collision_result_witness:
  "pacman roamState = Some ((newEntity 32 9 9)\<lparr>direction := Some LEFT\<rparr>) \<and>
   \<not> lastPelletEaten roamState (projr (draw exactMath 32 (\<lambda>i. (0, 0)) (0, 0) roamState)) \<and>
   (case draw exactMath 32 (\<lambda>i. (0, 0)) (0, 0) roamState of
      Inl e \<Rightarrow> False
    | Inr st' \<Rightarrow>
        map_option xpos (pacman st') = Some 302 \<and> map xpos (ghosts st') = [288] \<and>
        map isMerging (ghosts st') = [False] \<and> map merged (ghosts st') = [False] \<and>
        pelletsLeft st' = 30 \<and> gameState st' = LOST)"
proof -
  let ?p0 = "(newEntity 32 9 9)\<lparr>direction := Some LEFT\<rparr>"
  let ?d = "draw exactMath 32 (\<lambda>i. (0, 0)) (0, 0) roamState"
  have h1: "pacman roamState = Some ?p0" by (simp add: roamState_def)
  have d: "?d = Inr (projr ?d)"
    by (simp add: eval_defs roamState_def)
  have v: "map_option xpos (pacman (projr ?d)) = Some 302 \<and> map xpos (ghosts (projr ?d)) = [288] \<and>
        map isMerging (ghosts (projr ?d)) = [False] \<and> map merged (ghosts (projr ?d)) = [False] \<and>
        pelletsLeft (projr ?d) = 30"
    by (simp add: eval_defs roamState_def)
  have n: "\<not> lastPelletEaten roamState (projr ?d)"
    using v by (simp add: lastPelletEaten_def)
  have c: "\<exists>g \<in> set (ghosts (projr ?d)). collides 32 (updatePosition 32 (maze roamState) ?p0) g"
    by (simp add: eval_defs roamState_def collides_def)
  have "pacman (projr ?d) = Some (updatePosition 32 (maze roamState) ?p0)"
    using d h1 by (rule draw_pacman)
  with ghost_collision_result [OF d h1] c n have "gameState (projr ?d) = LOST" by auto
  with v h1 n show ?thesis by (subst d) simp
qed

section \<open>C8: key presses\<close>

text \<open>
  C8 as stated fails. In \<open>lostState\<close> the phase is \<open>LOST\<close> and the buffered direction is
  \<open>LEFT\<close>; after \<open>ArrowUp\<close> the buffered direction is \<open>UP\<close>.
\<close>

theorem handleKeyDown_after_game_counterexample:
  "gameState lostState = LOST \<and>
   map_option nextDirection (pacman lostState) = Some (Some LEFT) \<and>
   map_option nextDirection (pacman (handleKeyDown ''ArrowUp'' lostState)) = Some (Some UP)"
  by (simp add: lostState_def initGame_def handleKeyDown_def newEntity_def)

text \<open>
  C8, amended. \<open>handleKeyDown\<close> is guarded by \<open>if (!gameData.current.pacman) return\<close>
  and never reads the phase: without a player it changes nothing, as in the state before
  the first game; with a player an arrow key sets the buffered direction and any other key
  changes nothing, in every phase.
\<close>

theorem handleKeyDown_player_gate:
  "(pacman st = None \<longrightarrow> handleKeyDown k st = st) \<and>
   (\<forall>p. pacman st = Some p \<longrightarrow>
      handleKeyDown k st =
        st\<lparr>pacman := Some (case keyDirection k of None \<Rightarrow> p | Some d \<Rightarrow> p\<lparr>nextDirection := Some d\<rparr>)\<rparr>) \<and>
   handleKeyDown k (st\<lparr>gameState := ph\<rparr>) = (handleKeyDown k st)\<lparr>gameState := ph\<rparr> \<and>
   handleKeyDown k initialData = initialData"
  by (auto simp: handleKeyDown_def keyDirection_def initialData_def Let_def split: option.splits)

theorem handleKeyDown_player_gate_witness:
  "pacman initialData = None \<and> handleKeyDown ''ArrowUp'' initialData = initialData \<and>
   pacman lostState = Some ((newEntity 32 0 0)\<lparr>direction := Some LEFT, nextDirection := Some LEFT\<rparr>) \<and>
   handleKeyDown ''ArrowUp'' lostState =
     lostState\<lparr>pacman := Some ((newEntity 32 0 0)\<lparr>direction := Some LEFT, nextDirection := Some UP\<rparr>)\<rparr>"
proof -
  have p: "pacman lostState = Some ((newEntity 32 0 0)\<lparr>direction := Some LEFT, nextDirection := Some LEFT\<rparr>)"
    by (simp add: lostState_def initGame_def)
  have n: "pacman initialData = None" by (simp add: initialData_def)
  from handleKeyDown_player_gate [of lostState "''ArrowUp''" LOST] p n
    handleKeyDown_player_gate [of initialData "''ArrowUp''" LOST]
  show ?thesis by (simp add: keyDirection_def)
qed

section \<open>C9: respawning pellets\<close>

lemma cellAt_update:
  "cellAt (row[cx := t]) (int x) =
     (if x = cx \<and> cellAt row (int cx) \<noteq> None then Some t else cellAt row (int x))"
  by (auto simp: cellAt_def nth_list_update)

lemma tileAt_update:
  "tileAt (cur[cy := (cur ! cy)[cx := t]]) y x =
     (if y = cy \<and> x = cx \<and> tileAt cur cy cx \<noteq> None then Some t else tileAt cur y x)"
proof (cases "y = cy")
  case True
  show ?thesis
  proof (cases "cy < length cur")
    case c: True
    with True show ?thesis by (simp add: tileAt_def cellAt_update)
  next
    case c: False
    with True show ?thesis by (simp add: tileAt_def)
  qed
next
  case False
  then show ?thesis by (simp add: tileAt_def)
qed

lemma dueRow_Nil: "\<not> dueRow p cy cx [] cur y x"
  by (simp add: dueRow_def)

lemma dueRow_Cons:
  "dueRow p cy cx (t # ts) cur y x \<longleftrightarrow>
     (y = cy \<and> x = cx \<and> t = PELLET \<and> tileAt cur cy cx = Some EMPTY \<and> \<not> pacmanAt p (int cx) (int cy)) \<or>
     dueRow p cy (Suc cx) ts cur y x"
proof (cases "x = cx")
  case True
  then show ?thesis by (auto simp: dueRow_def)
next
  case False
  show ?thesis
  proof (cases "cx < x")
    case True
    then have "(t # ts) ! (x - cx) = ts ! (x - Suc cx)" by (simp add: nth_Cons')
    with True show ?thesis by (auto simp: dueRow_def)
  next
    case f: False
    with False show ?thesis by (auto simp: dueRow_def)
  qed
qed

lemma dueRow_update:
  "x \<noteq> cx \<Longrightarrow>
   dueRow p cy c2 ts (cur[cy := (cur ! cy)[cx := t]]) y x = dueRow p cy c2 ts cur y x"
  by (simp add: dueRow_def tileAt_update)

lemma dueRow_range: "dueRow p cy cx ts cur y x \<Longrightarrow> cx \<le> x"
  by (simp add: dueRow_def)

lemma respawnRow_spec:
  "respawnRow p cy cx ts (cur, n) = Inr (cur', n') \<Longrightarrow>
   length cur' = length cur \<and>
   (\<forall>y x. tileAt cur' y x = (if dueRow p cy cx ts cur y x then Some PELLET else tileAt cur y x))"
proof (induction ts arbitrary: cx cur n)
  case Nil
  then show ?case by (simp add: dueRow_Nil)
next
  case (Cons t ts)
  let ?hit = "t = PELLET \<and> tileAt cur cy cx = Some EMPTY \<and> \<not> pacmanAt p (int cx) (int cy)"
  show ?case
  proof (cases ?hit)
    case True
    then have lt: "cy < length cur" and c: "cellAt (cur ! cy) (int cx) = Some EMPTY"
      by (auto simp: tileAt_def split: if_splits)
    let ?cur1 = "cur[cy := (cur ! cy)[cx := PELLET]]"
    from Cons.prems True lt c
    have r: "respawnRow p cy (Suc cx) ts (?cur1, n + 1) = Inr (cur', n')" by simp
    from Cons.IH [OF r]
    have l: "length cur' = length cur"
      and s: "\<And>y x. tileAt cur' y x =
                (if dueRow p cy (Suc cx) ts ?cur1 y x then Some PELLET else tileAt ?cur1 y x)"
      by simp_all
    have "tileAt cur' y x = (if dueRow p cy cx (t # ts) cur y x then Some PELLET else tileAt cur y x)"
      for y x
    proof (cases "x = cx")
      case x: True
      have "\<not> dueRow p cy (Suc cx) ts c y cx" for c
        using dueRow_range [of p cy "Suc cx" ts c y cx] by auto
      with x True show ?thesis
        by (simp add: s dueRow_Cons tileAt_update)
    next
      case x: False
      then show ?thesis
        by (simp add: s dueRow_Cons dueRow_update tileAt_update)
    qed
    with l show ?thesis by simp
  next
    case False
    have r: "respawnRow p cy (Suc cx) ts (cur, n) = Inr (cur', n')"
    proof (cases "t = PELLET")
      case t: True
      with Cons.prems have lt: "cy < length cur" by (auto split: if_splits)
      with False t have "cellAt (cur ! cy) (int cx) \<noteq> Some EMPTY \<or> pacmanAt p (int cx) (int cy)"
        by (auto simp: tileAt_def)
      with Cons.prems t lt show ?thesis by (auto split: if_splits)
    next
      case t: False
      with Cons.prems show ?thesis by simp
    qed
    from Cons.IH [OF r] False show ?thesis
      by (simp add: dueRow_Cons)
  qed
qed

lemma respawnRow_rows:
  "respawnRow p cy cx ts (cur, n) = Inr (cur', n') \<Longrightarrow> PELLET \<in> set ts \<Longrightarrow> cy < length cur"
proof (induction ts arbitrary: cx cur n)
  case Nil
  then show ?case by simp
next
  case (Cons t ts)
  show ?case
  proof (cases "t = PELLET")
    case True
    with Cons.prems(1) show ?thesis by (auto split: if_splits)
  next
    case False
    with Cons.prems have "respawnRow p cy (Suc cx) ts (cur, n) = Inr (cur', n')" "PELLET \<in> set ts"
      by auto
    then show ?thesis by (rule Cons.IH)
  qed
qed

lemma respawnRow_noop:
  "(\<forall>y x. \<not> dueRow p cy cx ts cur y x) \<Longrightarrow> (PELLET \<in> set ts \<longrightarrow> cy < length cur) \<Longrightarrow>
   respawnRow p cy cx ts (cur, n) = Inr (cur, n)"
proof (induction ts arbitrary: cx)
  case Nil
  then show ?case by simp
next
  case (Cons t ts)
  from Cons.prems(1) have d: "\<forall>y x. \<not> dueRow p cy (Suc cx) ts cur y x"
    and h: "\<not> (t = PELLET \<and> tileAt cur cy cx = Some EMPTY \<and> \<not> pacmanAt p (int cx) (int cy))"
    by (auto simp: dueRow_Cons)
  from Cons.prems(2) have "PELLET \<in> set ts \<longrightarrow> cy < length cur" by simp
  with d have r: "respawnRow p cy (Suc cx) ts (cur, n) = Inr (cur, n)" by (rule Cons.IH)
  show ?case
  proof (cases "t = PELLET")
    case True
    with Cons.prems(2) have lt: "cy < length cur" by simp
    with True h have "cellAt (cur ! cy) (int cx) \<noteq> Some EMPTY \<or> pacmanAt p (int cx) (int cy)"
      by (auto simp: tileAt_def)
    with True lt r show ?thesis by auto
  next
    case False
    with r show ?thesis by simp
  qed
qed

lemma dueRows_Nil: "\<not> dueRows p cy [] cur y x"
  by (simp add: dueRows_def)

lemma dueRows_Cons:
  "dueRows p cy (row # rows) cur y x \<longleftrightarrow>
     dueRow p cy 0 row cur y x \<or> dueRows p (Suc cy) rows cur y x"
proof (cases "y = cy")
  case True
  then show ?thesis by (auto simp: dueRows_def dueRow_def tileAt_def cellAt_def)
next
  case False
  show ?thesis
  proof (cases "cy < y")
    case True
    then have "tileAt (row # rows) (y - cy) x = tileAt rows (y - Suc cy) x"
      by (auto simp: tileAt_def nth_Cons')
    with True show ?thesis by (auto simp: dueRows_def dueRow_def)
  next
    case f: False
    with False show ?thesis by (auto simp: dueRows_def dueRow_def)
  qed
qed

lemma dueRows_cong:
  "(\<And>y x. cy \<le> y \<Longrightarrow> tileAt cur1 y x = tileAt cur y x) \<Longrightarrow>
   dueRows p cy rows cur1 y x = dueRows p cy rows cur y x"
  by (auto simp: dueRows_def)

lemma respawnRows_spec:
  "respawnRows p cy rows (cur, n) = Inr (cur', n') \<Longrightarrow>
   length cur' = length cur \<and>
   (\<forall>y x. tileAt cur' y x = (if dueRows p cy rows cur y x then Some PELLET else tileAt cur y x))"
proof (induction rows arbitrary: cy cur n)
  case Nil
  then show ?case by (simp add: dueRows_Nil)
next
  case (Cons row rows)
  from Cons.prems obtain cur1 n1 where
    a: "respawnRow p cy 0 row (cur, n) = Inr (cur1, n1)"
    and b: "respawnRows p (Suc cy) rows (cur1, n1) = Inr (cur', n')"
    by (auto split: sum.splits)
  from respawnRow_spec [OF a]
  have l1: "length cur1 = length cur"
    and s1: "\<And>y x. tileAt cur1 y x = (if dueRow p cy 0 row cur y x then Some PELLET else tileAt cur y x)"
    by simp_all
  from Cons.IH [OF b]
  have l2: "length cur' = length cur1"
    and s2: "\<And>y x. tileAt cur' y x =
               (if dueRows p (Suc cy) rows cur1 y x then Some PELLET else tileAt cur1 y x)"
    by simp_all
  have c: "dueRows p (Suc cy) rows cur1 y x = dueRows p (Suc cy) rows cur y x" for y x
    by (rule dueRows_cong) (simp add: s1 dueRow_def)
  have "tileAt cur' y x = (if dueRows p cy (row # rows) cur y x then Some PELLET else tileAt cur y x)"
    for y x
    by (simp add: s2 c s1 dueRows_Cons)
  with l1 l2 show ?case by simp
qed

lemma respawnRows_rows:
  "respawnRows p cy rows (cur, n) = Inr (cur', n') \<Longrightarrow> rowsRead cy rows (length cur)"
proof (induction rows arbitrary: cy cur n)
  case Nil
  then show ?case by (simp add: rowsRead_def)
next
  case (Cons row rows)
  from Cons.prems obtain cur1 n1 where
    a: "respawnRow p cy 0 row (cur, n) = Inr (cur1, n1)"
    and b: "respawnRows p (Suc cy) rows (cur1, n1) = Inr (cur', n')"
    by (auto split: sum.splits)
  from respawnRow_spec [OF a] have l1: "length cur1 = length cur" by simp
  from Cons.IH [OF b] l1 have "rowsRead (Suc cy) rows (length cur)" by simp
  moreover have "PELLET \<in> set row \<longrightarrow> cy < length cur"
    using respawnRow_rows [OF a] by simp
  ultimately show ?case by (simp add: rowsRead_def)
qed

lemma respawnRows_noop:
  "(\<forall>y x. \<not> dueRows p cy rows cur y x) \<Longrightarrow> rowsRead cy rows (length cur) \<Longrightarrow>
   respawnRows p cy rows (cur, n) = Inr (cur, n)"
proof (induction rows arbitrary: cy)
  case Nil
  then show ?case by simp
next
  case (Cons row rows)
  from Cons.prems(1) have d1: "\<forall>y x. \<not> dueRow p cy 0 row cur y x"
    and d2: "\<forall>y x. \<not> dueRows p (Suc cy) rows cur y x"
    by (auto simp: dueRows_Cons)
  from Cons.prems(2) have r1: "PELLET \<in> set row \<longrightarrow> cy < length cur"
    and r2: "rowsRead (Suc cy) rows (length cur)"
    by (simp_all add: rowsRead_def)
  from d1 r1 have "respawnRow p cy 0 row (cur, n) = Inr (cur, n)" by (rule respawnRow_noop)
  moreover from d2 r2 have "respawnRows p (Suc cy) rows (cur, n) = Inr (cur, n)" by (rule Cons.IH)
  ultimately show ?case by simp
qed

lemma dueRows_respawnDue: "dueRows p 0 MAP cur y x = respawnDue MAP p cur y x"
  by (auto simp: dueRows_def respawnDue_def tileAt_def)

lemma respawnRow_total:
  "cy < length cur \<Longrightarrow> \<exists>cur' n'. respawnRow p cy cx ts (cur, n) = Inr (cur', n')"
proof (induction ts arbitrary: cx cur n)
  case Nil
  then show ?case by simp
next
  case (Cons t ts)
  have "cy < length (cur[cy := (cur ! cy)[cx := PELLET]])" using Cons.prems by simp
  from Cons.IH [OF this] Cons.IH [OF Cons.prems] Cons.prems show ?case by simp
qed

lemma respawnRows_total:
  "cy + length rows \<le> length cur \<Longrightarrow> \<exists>cur' n'. respawnRows p cy rows (cur, n) = Inr (cur', n')"
proof (induction rows arbitrary: cy cur n)
  case Nil
  then show ?case by simp
next
  case (Cons row rows)
  then have "cy < length cur" by simp
  from respawnRow_total [OF this] obtain cur1 n1 where
    a: "respawnRow p cy 0 row (cur, n) = Inr (cur1, n1)" by blast
  from respawnRow_spec [OF a] have "length cur1 = length cur" by simp
  with Cons.prems have "Suc cy + length rows \<le> length cur1" by simp
  from Cons.IH [OF this] a show ?case by simp
qed

lemma respawnPellets_spec:
  assumes "respawnPellets MAP p cur = Inr (cur', n)"
  shows "length cur' = length cur"
    and "tileAt cur' y x = (if respawnDue MAP p cur y x then Some PELLET else tileAt cur y x)"
    and "respawnPellets MAP p cur' = Inr (cur', 0)"
proof -
  from assms have r: "respawnRows p 0 MAP (cur, 0) = Inr (cur', n)"
    by (simp add: respawnPellets_def)
  from respawnRows_spec [OF r]
  show l: "length cur' = length cur"
    and s: "tileAt cur' y x = (if respawnDue MAP p cur y x then Some PELLET else tileAt cur y x)" for y x
    by (simp_all add: dueRows_respawnDue)
  have "\<not> dueRows p 0 MAP cur' y x" for y x
    unfolding dueRows_respawnDue
    using s [of y x] by (auto simp: respawnDue_def split: if_splits)
  moreover have "rowsRead 0 MAP (length cur')"
    using respawnRows_rows [OF r] l by simp
  ultimately have "respawnRows p 0 MAP (cur', 0) = Inr (cur', 0)"
    by (simp add: respawnRows_noop)
  then show "respawnPellets MAP p cur' = Inr (cur', 0)" by (simp add: respawnPellets_def)
qed

text \<open>
  C9. When the respawn loop returns, the new grid has a pellet in exactly the cells that
  were due (pellet in the layout, \<open>EMPTY\<close> in the live grid, not the player's cell), every
  other cell is as before, and running the loop again on the new grid, with the player
  where it was, returns the same grid and the count 0. The loop returns whenever the live
  grid has at least as many rows as the layout. For the callback of the interval: a second
  tick right after the first changes nothing.
\<close>

theorem respawn_exact_idempotent:
  "(respawnPellets MAP p cur = Inr (cur', n) \<longrightarrow>
      length cur' = length cur \<and>
      (\<forall>y x. tileAt cur' y x = (if respawnDue MAP p cur y x then Some PELLET else tileAt cur y x)) \<and>
      respawnPellets MAP p cur' = Inr (cur', 0)) \<and>
   (length MAP \<le> length cur \<longrightarrow> (\<exists>cur' n. respawnPellets MAP p cur = Inr (cur', n))) \<and>
   (respawnTick MAP st = Inr st' \<longrightarrow> respawnTick MAP st' = Inr st')"
proof (intro conjI impI)
  assume a: "respawnPellets MAP p cur = Inr (cur', n)"
  show "length cur' = length cur" using a by (rule respawnPellets_spec)
  show "\<forall>y x. tileAt cur' y x = (if respawnDue MAP p cur y x then Some PELLET else tileAt cur y x)"
    using respawnPellets_spec(2) [OF a] by blast
  show "respawnPellets MAP p cur' = Inr (cur', 0)" using a by (rule respawnPellets_spec)
next
  assume "length MAP \<le> length cur"
  then show "\<exists>cur' n. respawnPellets MAP p cur = Inr (cur', n)"
    using respawnRows_total [of 0 MAP cur p 0] by (simp add: respawnPellets_def)
next
  assume a: "respawnTick MAP st = Inr st'"
  show "respawnTick MAP st' = Inr st'"
  proof (cases "gameState st = PLAYING")
    case True
    with a obtain cur' n where
      r: "respawnPellets MAP (pacman st) (maze st) = Inr (cur', n)"
      and s: "st' = st\<lparr>maze := cur',
                       pelletsLeft := (if n > 0 then pelletsLeft st + n else pelletsLeft st)\<rparr>"
      by (auto simp: respawnTick_def split: sum.splits)
    from respawnPellets_spec(3) [OF r] True s show ?thesis
      by (simp add: respawnTick_def)
  next
    case False
    with a show ?thesis by (simp add: respawnTick_def)
  qed
qed

text \<open>Two eaten pellets, the player on the second: only the first comes back, once.\<close>

theorem respawn_exact_idempotent_witness:
  "respawnPellets [[PELLET, PELLET, PACMAN_START]] (Some (newEntity 32 1 0))
     [[EMPTY, EMPTY, PACMAN_START]] = Inr ([[PELLET, EMPTY, PACMAN_START]], 1) \<and>
   respawnPellets [[PELLET, PELLET, PACMAN_START]] (Some (newEntity 32 1 0))
     [[PELLET, EMPTY, PACMAN_START]] = Inr ([[PELLET, EMPTY, PACMAN_START]], 0) \<and>
   length [[PELLET, PELLET, PACMAN_START]] \<le> length [[EMPTY, EMPTY, PACMAN_START]]"
proof -
  have a: "respawnPellets [[PELLET, PELLET, PACMAN_START]] (Some (newEntity 32 1 0))
     [[EMPTY, EMPTY, PACMAN_START]] = Inr ([[PELLET, EMPTY, PACMAN_START]], 1)"
    by (simp add: respawnPellets_def cellAt_def pacmanAt_def newEntity_def)
  from a respawn_exact_idempotent [of "[[PELLET, PELLET, PACMAN_START]]" "Some (newEntity 32 1 0)"
      "[[EMPTY, EMPTY, PACMAN_START]]" "[[PELLET, EMPTY, PACMAN_START]]" 1]
  show ?thesis by simp
qed

section \<open>C10: the score\<close>

lemma eatPellet_score:
  "eatPellet pac st = Inr (st2, queued) \<Longrightarrow> score st2 = score st \<or> score st2 = score st + 10"
  by (auto simp: eatPellet_def Let_def split: if_splits)

lemma draw_score:
  assumes "draw M T rnd urnd st = Inr st'"
  shows "score st' = score st \<or> score st' = score st + 10"
proof (cases "pacman st")
  case None
  with assms show ?thesis by (simp add: draw_def)
next
  case (Some p0)
  with assms obtain st2 queued mid fin where
    e: "eatPellet (updatePosition T (maze st) p0) (st\<lparr>pacman := Some (updatePosition T (maze st) p0)\<rparr>) =
          Inr (st2, queued)"
    and f: "fin = ultimateStage T urnd (updatePosition T (maze st) p0) mid"
    and s: "st' = (if queued then pelletsUpdater fin else fin)"
    and g: "ghosts mid = ghosts st'" and mz: "maze mid = maze st2"
    and m: "score mid = score st2"
    by (rule draw_stages)
  from s f m have "score st' = score st2"
    by (simp add: ultimateStage_frame pelletsUpdater_frame)
  with eatPellet_score [OF e] show ?thesis by simp
qed

lemma handleKeyDown_score: "score (handleKeyDown k st) = score st"
  by (simp add: handleKeyDown_def Let_def split: option.splits)

lemma respawnTick_score: "respawnTick MAP st = Inr st' \<Longrightarrow> score st' = score st"
  by (auto simp: respawnTick_def split: if_splits sum.splits)

lemma applyEvent_score:
  assumes "applyEvent M T MAP ev st = Inr st'"
  shows "score st' = score st \<or> score st' = score st + 10"
proof (cases ev)
  case (Frame rnd urnd)
  with assms show ?thesis
    using draw_score [of M T rnd urnd st st'] by (auto simp: applyEvent_def frame_def split: if_splits)
next
  case (KeyDown k)
  with assms show ?thesis by (auto simp: applyEvent_def handleKeyDown_score)
next
  case RespawnInterval
  with assms show ?thesis by (auto simp: applyEvent_def respawnTick_score)
qed

lemma runGame_score:
  "runGame M T MAP evs st0 = Inr st \<Longrightarrow> 0 \<le> score st0 \<Longrightarrow> 10 dvd score st0 \<Longrightarrow>
   score st0 \<le> score st \<and> 10 dvd score st"
proof (induction evs arbitrary: st0)
  case Nil
  then show ?case by simp
next
  case (Cons ev evs)
  from Cons.prems(1) obtain st1 where a: "applyEvent M T MAP ev st0 = Inr st1"
    and r: "runGame M T MAP evs st1 = Inr st"
    by (auto split: sum.splits)
  from applyEvent_score [OF a] Cons.prems(2,3)
  have s: "score st0 \<le> score st1" "0 \<le> score st1" "10 dvd score st1" by auto
  from Cons.IH [OF r s(2,3)] s(1) show ?case by simp
qed

lemma initGame_score: "score (initGame T cs MAP) = 0"
  by (simp add: initGame_def split: prod.splits)

text \<open>
  C10. \<open>initGame\<close> sets the score to 0. In every state that a run of frames, key presses
  and respawn ticks reaches from there, the score is a non-negative multiple of 10; one
  more event leaves it or adds exactly 10, so an event that takes it from below 1500 (or
  1800) to at least that makes it exactly 1500 (or 1800); and no continuation of the run
  lowers it.
\<close>

theorem score_multiple_of_ten:
  assumes "runGame M T MAP evs (initGame T cs MAP) = Inr st"
  shows "score (initGame T cs MAP) = 0 \<and> 0 \<le> score st \<and> 10 dvd score st \<and>
         (\<forall>ev st'. applyEvent M T MAP ev st = Inr st' \<longrightarrow>
            (score st' = score st \<or> score st' = score st + 10) \<and>
            (score st < 1500 \<and> 1500 \<le> score st' \<longrightarrow> score st' = 1500) \<and>
            (score st < 1800 \<and> 1800 \<le> score st' \<longrightarrow> score st' = 1800)) \<and>
         (\<forall>evs' st'. runGame M T MAP evs' st = Inr st' \<longrightarrow> score st \<le> score st')"
proof -
  have i: "score (initGame T cs MAP) = 0" by (rule initGame_score)
  from runGame_score [OF assms] i have p: "0 \<le> score st" "10 dvd score st" by simp_all
  have step: "(score st' = score st \<or> score st' = score st + 10) \<and>
            (score st < 1500 \<and> 1500 \<le> score st' \<longrightarrow> score st' = 1500) \<and>
            (score st < 1800 \<and> 1800 \<le> score st' \<longrightarrow> score st' = 1800)"
    if a: "applyEvent M T MAP ev st = Inr st'" for ev st'
  proof -
    from applyEvent_score [OF a] have c: "score st' = score st \<or> score st' = score st + 10" .
    from p(2) obtain k where k: "score st = 10 * k" by (auto simp: dvd_def)
    from c k show ?thesis by auto
  qed
  have mono: "score st \<le> score st'" if "runGame M T MAP evs' st = Inr st'" for evs' st'
    using runGame_score [OF that] p by simp
  from i p step mono show ?thesis by blast
qed

text \<open>
  In the corridor the player needs eight frames to reach the edge of its start cell, at
  score 0, and eats the pellet in the ninth.
\<close>

theorem score_multiple_of_ten_witness:
  "runGame exactMath 32 corridorMap eightFrames (initGame 32 [] corridorMap) =
     Inr ((initGame 32 [] corridorMap)
            \<lparr>pacman := Some \<lparr>xpos = 32, ypos = 16, gridX = 1, gridY = 0, direction = Some LEFT,
                               nextDirection = None, speed = 2\<rparr>\<rparr>) \<and>
   score (projr (runGame exactMath 32 corridorMap eightFrames (initGame 32 [] corridorMap))) = 0 \<and>
   score (projr (applyEvent exactMath 32 corridorMap stillFrame
            (projr (runGame exactMath 32 corridorMap eightFrames (initGame 32 [] corridorMap))))) = 10"
proof -
  let ?s8 = "(initGame 32 [] corridorMap)
            \<lparr>pacman := Some \<lparr>xpos = 32, ypos = 16, gridX = 1, gridY = 0, direction = Some LEFT,
                               nextDirection = None, speed = 2\<rparr>\<rparr>"
  have r: "runGame exactMath 32 corridorMap eightFrames (initGame 32 [] corridorMap) = Inr ?s8"
    by (simp add: eightFrames_def stillFrame_def corridorMap_def initGame_def applyEvent_def frame_def
        eval_defs)
  have a: "applyEvent exactMath 32 corridorMap stillFrame ?s8 =
             Inr (projr (applyEvent exactMath 32 corridorMap stillFrame ?s8))"
    by (simp add: stillFrame_def corridorMap_def initGame_def applyEvent_def frame_def eval_defs)
  have v: "score (projr (applyEvent exactMath 32 corridorMap stillFrame ?s8)) = 10"
    by (simp add: stillFrame_def corridorMap_def initGame_def applyEvent_def frame_def eval_defs)
  from score_multiple_of_ten [OF r] a v r show ?thesis by simp
qed

end
